theory Spec2Isabelle
  imports Complex_Main "HOL-Library.AList" "HOL-Library.Sublist"
begin

section \<open>Strings\<close>

text \<open>
  A Python \<open>str\<close> is modelled as a \<open>string\<close> (a list of characters). The only case
  conversion the analysed code relies on is that of the ASCII letters, which is what
  \<open>str.lower\<close> does on them; every other character is left alone.
\<close>

definition lower_char :: "char \<Rightarrow> char" where
  "lower_char c =
     (case map_of (zip ''ABCDEFGHIJKLMNOPQRSTUVWXYZ'' ''abcdefghijklmnopqrstuvwxyz'') c of
        Some l \<Rightarrow> l
      | None \<Rightarrow> c)"

definition lower :: "string \<Rightarrow> string" where
  "lower s = map lower_char s"

text \<open>Python's \<open>sub in s\<close> on strings: \<open>sub\<close> occurs in \<open>s\<close> as a contiguous block.\<close>

fun str_in :: "string \<Rightarrow> string \<Rightarrow> bool" where
  "str_in sub [] = (sub = [])"
| "str_in sub (c # cs) = (prefix sub (c # cs) \<or> str_in sub cs)"

text \<open>Python's slice \<open>s[i:j]\<close> for non-negative \<open>i\<close>, \<open>j\<close>; out-of-range bounds are clipped.\<close>

definition slice :: "'a list \<Rightarrow> nat \<Rightarrow> nat \<Rightarrow> 'a list" where
  "slice s i j = drop i (take j s)"

section \<open>Data model (code\_analyzer.py)\<close>

record CodeElement =
  name :: string
  type :: string
  file_path :: string
  line_start :: int
  line_end :: int
  column_start :: int
  column_end :: int
  docstring :: "string option"
  parameters :: "string list option"
  return_type :: "string option"
  parent :: "string option"
  children :: "string list option"

type_synonym relationship = "string \<times> string \<times> string"

text \<open>
  A Python \<open>dict\<close> keeps its keys in insertion order; assigning to an existing key keeps
  the key's position and replaces its value. This is \<^const>\<open>AList.update\<close> on an
  association list. \<open>d.update(e)\<close> assigns the items of \<open>e\<close> in order.
\<close>

type_synonym ('k, 'v) dict = "('k \<times> 'v) list"

definition keys :: "('k, 'v) dict \<Rightarrow> 'k list" where
  "keys d = map fst d"

definition dict_update :: "('k, 'v) dict \<Rightarrow> ('k, 'v) dict \<Rightarrow> ('k, 'v) dict" where
  "dict_update d e = fold (\<lambda>(k, v) acc. AList.update k v acc) e d"

text \<open>
  The part of \<open>networkx.DiGraph\<close> the analyser uses. A node carries the attributes it was
  added with, or none when it only came into being as the endpoint of an edge
  (\<open>add_edge\<close> creates missing endpoints). There is at most one edge per ordered pair of
  nodes; adding it again overwrites its \<open>relationship\<close> attribute.
\<close>

record DiGraph =
  nodes :: "(string, CodeElement option) dict"
  edges :: "(string \<times> string, string) dict"

definition empty_graph :: DiGraph where
  "empty_graph = \<lparr>nodes = [], edges = []\<rparr>"

definition add_node :: "string \<Rightarrow> CodeElement \<Rightarrow> DiGraph \<Rightarrow> DiGraph" where
  "add_node n attrs g = g\<lparr>nodes := AList.update n (Some attrs) (nodes g)\<rparr>"

definition ensure_node :: "string \<Rightarrow> (string, CodeElement option) dict \<Rightarrow> (string, CodeElement option) dict" where
  "ensure_node n ns = (if n \<in> set (keys ns) then ns else ns @ [(n, None)])"

definition add_edge :: "string \<Rightarrow> string \<Rightarrow> string \<Rightarrow> DiGraph \<Rightarrow> DiGraph" where
  "add_edge u v rel g =
     \<lparr>nodes = ensure_node v (ensure_node u (nodes g)),
      edges = AList.update (u, v) rel (edges g)\<rparr>"

record CodeContextGraph =
  elements :: "(string, CodeElement) dict"
  relationships :: "relationship list"
  graph :: DiGraph

section \<open>The relationship query (query\_relationships)\<close>

record query_result =
  from_id :: string
  to_id :: string
  relationship :: string

text \<open>The loop \<open>for from_id, to_id, rel_type in ccg.relationships: if rel_type == kind: append\<close>.\<close>

fun collect_kind :: "string \<Rightarrow> relationship list \<Rightarrow> query_result list \<Rightarrow> query_result list" where
  "collect_kind kind [] results = results"
| "collect_kind kind ((f, t, rel_type) # rs) results =
     collect_kind kind rs
       (if rel_type = kind
        then results @ [\<lparr>from_id = f, to_id = t, relationship = rel_type\<rparr>]
        else results)"

definition query_relationships :: "CodeContextGraph \<Rightarrow> string \<Rightarrow> query_result list" where
  "query_relationships ccg query =
     (if str_in ''calls'' (lower query) then collect_kind ''calls'' (relationships ccg) []
      else if str_in ''inherits'' (lower query) then collect_kind ''inherits'' (relationships ccg) []
      else [])"

text \<open>
  What the specification calls "the query contains the substring \<open>w\<close> case-insensitively":
  some contiguous block of the query equals \<open>w\<close> once its letters are lowered.
\<close>

definition contains_ci :: "string \<Rightarrow> string \<Rightarrow> bool" where
  "contains_ci w query = (\<exists>pre mid post. query = pre @ mid @ post \<and> lower mid = w)"

text \<open>The relationships of one kind, as records, in the order of the flat list.\<close>

definition of_kind :: "string \<Rightarrow> relationship list \<Rightarrow> query_result list" where
  "of_kind kind rs =
     map (\<lambda>(f, t, k). \<lparr>from_id = f, to_id = t, relationship = k\<rparr>)
       (filter (\<lambda>(f, t, k). k = kind) rs)"

section \<open>The world outside the program\<close>

text \<open>
  Reading a file, walking the directory tree, the grammar parsers and the regular-expression
  engine are not code of the repository. They are parameters of the model: a file system
  whose reads may raise, the table of registered parsers (each of which may raise on an
  input), and the matching functions of Python's \<open>re\<close>.

  The file system names a file under the root by its path relative to the root, as
  \<open>rglob\<close> results made relative to the root are, and any other file by its own path;
  the root itself is \<open>.\<close>. Asking whether a path exists may raise, as a read may.
\<close>

datatype py_error = OSError | ParseError | ValueError string

datatype Node =
  Node (ntype: string) (start_point: "nat \<times> nat") (end_point: "nat \<times> nat")
       (start_byte: nat) (end_byte: nat) (nchildren: "Node list")

record rmatch =
  group1 :: string
  match_start :: nat
  match_end :: nat

record env =
  path_exists :: "string \<Rightarrow> py_error + bool"
  is_file :: "string \<Rightarrow> bool"
  rglob :: "string \<Rightarrow> string list"
  read_bytes :: "string \<Rightarrow> py_error + char list"
  st_size :: "string \<Rightarrow> nat"
  decode_ignore :: "char list \<Rightarrow> string"
  finditer :: "string \<Rightarrow> string \<Rightarrow> rmatch list"
  re_search :: "string \<Rightarrow> string \<Rightarrow> bool"
  true_div :: "int \<Rightarrow> int \<Rightarrow> real"

record CodeAnalyzer =
  parsers :: "string \<rightharpoonup> (string \<Rightarrow> py_error + Node)"

text \<open>
  \<open>pathlib\<close>: a path is the list of its components (\<open>parts\<close>), the root \<open>/\<close> being the
  first component of an absolute path; empty components and \<open>.\<close> are dropped. Joining
  with an absolute path gives that path. \<open>relative_to\<close> compares components only and raises
  \<open>ValueError\<close> for a path that does not start with the other path's components.
\<close>

fun split_on :: "char \<Rightarrow> string \<Rightarrow> string list" where
  "split_on c [] = [[]]"
| "split_on c (x # xs) =
     (if x = c then [] # split_on c xs
      else (case split_on c xs of [] \<Rightarrow> [[x]] | w # ws \<Rightarrow> (x # w) # ws))"

definition parts :: "string \<Rightarrow> string list" where
  "parts p =
     (if prefix ''/'' p then [''/''] else []) @
     filter (\<lambda>s. s \<noteq> [] \<and> s \<noteq> ''.'') (split_on (CHR ''/'') p)"

definition is_absolute :: "string list \<Rightarrow> bool" where
  "is_absolute p = (case p of [] \<Rightarrow> False | c # _ \<Rightarrow> c = ''/'')"

definition joinpath :: "string \<Rightarrow> string \<Rightarrow> string list" where
  "joinpath repo_path entry_point =
     (if prefix ''/'' entry_point then parts entry_point
      else parts repo_path @ parts entry_point)"

definition relative_to :: "string list \<Rightarrow> string list \<Rightarrow> py_error + string list" where
  "relative_to p other =
     (if prefix other p \<and> \<not> (other = [] \<and> is_absolute p) then Inr (drop (length other) p)
      else Inl (ValueError ''path is not in the subpath of the other path''))"

fun join_with :: "string \<Rightarrow> string list \<Rightarrow> string" where
  "join_with sep [] = []"
| "join_with sep [x] = x"
| "join_with sep (x # y # ys) = x @ sep @ join_with sep (y # ys)"

definition str_path :: "string list \<Rightarrow> string" where
  "str_path p =
     (case p of
        [] \<Rightarrow> ''.''
      | c # cs \<Rightarrow> if c = ''/'' then ''/'' @ join_with ''/'' cs else join_with ''/'' p)"

text \<open>The name under which the file system knows the path \<open>fpath\<close>.\<close>

definition fs_name :: "string \<Rightarrow> string list \<Rightarrow> string" where
  "fs_name repo_root fpath =
     (case relative_to fpath (parts repo_root) of
        Inr rp \<Rightarrow> str_path rp
      | Inl err \<Rightarrow> str_path fpath)"

text \<open>\<open>open(p, 'r', encoding='utf-8', errors='ignore').read()\<close>: only opening or reading can raise.\<close>

definition read_text :: "env \<Rightarrow> string \<Rightarrow> py_error + string" where
  "read_text e p = (case read_bytes e p of Inl err \<Rightarrow> Inl err | Inr bs \<Rightarrow> Inr (decode_ignore e bs))"

abbreviation bs :: string where
  "bs \<equiv> [CHR 0x5C]"

abbreviation newline :: char where
  "newline \<equiv> CHR 0x0A"

text \<open>\<open>s.rfind(c, 0, j)\<close>: the last index below \<open>j\<close> at which \<open>c\<close> stands, or \<open>-1\<close>.\<close>

definition rfind :: "char \<Rightarrow> string \<Rightarrow> nat \<Rightarrow> int" where
  "rfind c s j =
     (let t = take j s
      in if c \<in> set t then int (length t) - 1 - int (length (takeWhile (\<lambda>x. x \<noteq> c) (rev t)))
         else - 1)"

text \<open>Truth value of an \<open>Optional[str]\<close>: \<open>None\<close> and the empty string are false.\<close>

definition truthy :: "string option \<Rightarrow> bool" where
  "truthy x = (case x of None \<Rightarrow> False | Some s \<Rightarrow> s \<noteq> [])"

section \<open>Grammar-based strategy (code\_analyzer.py)\<close>

type_synonym parse_result = "(string, CodeElement) dict \<times> relationship list"

definition get_node_text :: "Node \<Rightarrow> string \<Rightarrow> string \<Rightarrow> string option" where
  "get_node_text node content child_type =
     (case find (\<lambda>child. ntype child = child_type) (nchildren node) of
        Some child \<Rightarrow> Some (slice content (start_byte child) (end_byte child))
      | None \<Rightarrow> None)"

definition get_import_name :: "Node \<Rightarrow> string \<Rightarrow> string option" where
  "get_import_name node content =
     (case find (\<lambda>child. ntype child = ''dotted_name'') (nchildren node) of
        Some child \<Rightarrow> Some (slice content (start_byte child) (end_byte child))
      | None \<Rightarrow> None)"

definition node_element :: "string \<Rightarrow> string \<Rightarrow> string \<Rightarrow> Node \<Rightarrow> string option \<Rightarrow> CodeElement" where
  "node_element nm ty fp node par =
     \<lparr>name = nm, type = ty, file_path = fp,
      line_start = int (fst (start_point node)) + 1,
      line_end = int (fst (end_point node)) + 1,
      column_start = int (snd (start_point node)),
      column_end = int (snd (end_point node)),
      docstring = None, parameters = None, return_type = None,
      parent = par, children = None\<rparr>"

text \<open>The stub of the source: its body is \<open>pass\<close>, it leaves both collections as they are.\<close>

definition find_function_calls ::
  "Node \<Rightarrow> string \<Rightarrow> string \<Rightarrow> string \<Rightarrow> parse_result \<Rightarrow> parse_result" where
  "find_function_calls node content parent_id fp st = st"

text \<open>
  Recording a declaration: \<open>elements[element_id] = element\<close>, then
  \<open>if parent: relationships.append((parent, element_id, 'contains'))\<close>.
\<close>

definition record_declaration ::
  "string \<Rightarrow> string \<Rightarrow> string \<Rightarrow> Node \<Rightarrow> string option \<Rightarrow> parse_result \<Rightarrow> parse_result" where
  "record_declaration nm ty fp node par st =
     (let element_id = fp @ '':'' @ nm;
          els = AList.update element_id (node_element nm ty fp node par) (fst st)
      in (els, if truthy par then snd st @ [(the par, element_id, ''contains'')] else snd st))"

text \<open>
  The closure \<open>traverse_node\<close> of \<open>_parse_python_ast\<close>, with the two collections it
  mutates passed through. Its body is an \<open>if\<close>/\<open>elif\<close> chain on the node type followed by
  a loop over all children. \<open>py_declare\<close> is what the chain records for the node itself;
  \<open>py_class_scope\<close> is the id under which the \<open>class_definition\<close> branch then walks the
  children of the node's \<open>block\<close> children (\<open>None\<close> in every other branch).
  A class body is therefore walked twice: once with the class as parent, and once more by
  the final loop over all children with the enclosing parent.
\<close>

definition py_declare :: "string \<Rightarrow> string \<Rightarrow> Node \<Rightarrow> string option \<Rightarrow> parse_result \<Rightarrow> parse_result" where
  "py_declare fp content node par st =
     (if ntype node = ''function_definition'' then
        (case get_node_text node content ''identifier'' of
           None \<Rightarrow> st
         | Some nm \<Rightarrow>
             if nm = [] then st
             else find_function_calls node content (fp @ '':'' @ nm) fp
                    (record_declaration nm ''function'' fp node par st))
      else if ntype node = ''class_definition'' then
        (case get_node_text node content ''identifier'' of
           None \<Rightarrow> st
         | Some nm \<Rightarrow>
             if nm = [] then st else record_declaration nm ''class'' fp node par st)
      else if ntype node = ''import_statement'' then
        (case get_import_name node content of
           None \<Rightarrow> st
         | Some module_name \<Rightarrow>
             if module_name = [] then st
             else (AList.update (fp @ '':import:'' @ module_name)
                     (node_element module_name ''import'' fp node None) (fst st),
                   snd st))
      else st)"

definition py_class_scope :: "string \<Rightarrow> string \<Rightarrow> Node \<Rightarrow> string option" where
  "py_class_scope fp content node =
     (if ntype node = ''class_definition'' then
        (case get_node_text node content ''identifier'' of
           None \<Rightarrow> None
         | Some nm \<Rightarrow> if nm = [] then None else Some (fp @ '':'' @ nm))
      else None)"

function (sequential)
  py_traverse_node :: "string \<Rightarrow> string \<Rightarrow> Node \<Rightarrow> string option \<Rightarrow> parse_result \<Rightarrow> parse_result"
  and py_traverse_children :: "string \<Rightarrow> string \<Rightarrow> Node list \<Rightarrow> string option \<Rightarrow> parse_result \<Rightarrow> parse_result"
  and py_traverse_blocks :: "string \<Rightarrow> string \<Rightarrow> Node list \<Rightarrow> string option \<Rightarrow> parse_result \<Rightarrow> parse_result"
where
  "py_traverse_node fp content (Node ty sp ep sb eb cs) par st =
     py_traverse_children fp content cs par
       (case py_class_scope fp content (Node ty sp ep sb eb cs) of
          None \<Rightarrow> py_declare fp content (Node ty sp ep sb eb cs) par st
        | Some element_id \<Rightarrow>
            py_traverse_blocks fp content cs (Some element_id)
              (py_declare fp content (Node ty sp ep sb eb cs) par st))"
| "py_traverse_children fp content [] par st = st"
| "py_traverse_children fp content (child # rest) par st =
     py_traverse_children fp content rest par (py_traverse_node fp content child par st)"
| "py_traverse_blocks fp content [] par st = st"
| "py_traverse_blocks fp content (Node ty sp ep sb eb gcs # rest) par st =
     py_traverse_blocks fp content rest par
       (if ty = ''block'' then py_traverse_children fp content gcs par st else st)"
  by pat_completeness auto
termination
  by (relation "measure (case_sum (\<lambda>p. size (fst (snd (snd p))))
        (case_sum (\<lambda>p. size_list size (fst (snd (snd p))))
                  (\<lambda>p. size_list size (fst (snd (snd p))))))") auto

definition parse_python_ast :: "Node \<Rightarrow> string \<Rightarrow> string \<Rightarrow> parse_result" where
  "parse_python_ast root_node fp content = py_traverse_node fp content root_node None ([], [])"

text \<open>
  \<open>_parse_javascript_ast\<close>: functions and classes are recorded, and the only recursion is
  the loop over all children with the parent unchanged, so the parent is \<open>None\<close> throughout.
\<close>

definition js_declare :: "string \<Rightarrow> string \<Rightarrow> Node \<Rightarrow> string option \<Rightarrow> parse_result \<Rightarrow> parse_result" where
  "js_declare fp content node par st =
     (if ntype node = ''function_declaration'' then
        (case get_node_text node content ''identifier'' of
           None \<Rightarrow> st
         | Some nm \<Rightarrow>
             if nm = [] then st else record_declaration nm ''function'' fp node par st)
      else if ntype node = ''class_declaration'' then
        (case get_node_text node content ''identifier'' of
           None \<Rightarrow> st
         | Some nm \<Rightarrow>
             if nm = [] then st else record_declaration nm ''class'' fp node par st)
      else st)"

function (sequential)
  js_traverse_node :: "string \<Rightarrow> string \<Rightarrow> Node \<Rightarrow> string option \<Rightarrow> parse_result \<Rightarrow> parse_result"
  and js_traverse_children :: "string \<Rightarrow> string \<Rightarrow> Node list \<Rightarrow> string option \<Rightarrow> parse_result \<Rightarrow> parse_result"
where
  "js_traverse_node fp content (Node ty sp ep sb eb cs) par st =
     js_traverse_children fp content cs par
       (js_declare fp content (Node ty sp ep sb eb cs) par st)"
| "js_traverse_children fp content [] par st = st"
| "js_traverse_children fp content (child # rest) par st =
     js_traverse_children fp content rest par (js_traverse_node fp content child par st)"
  by pat_completeness auto
termination
  by (relation "measure (case_sum (\<lambda>p. size (fst (snd (snd p))))
                  (\<lambda>p. size_list size (fst (snd (snd p)))))") auto

definition parse_javascript_ast :: "Node \<Rightarrow> string \<Rightarrow> string \<Rightarrow> parse_result" where
  "parse_javascript_ast root_node fp content = js_traverse_node fp content root_node None ([], [])"

text \<open>
  \<open>_parse_java_ast\<close>: as for Python, with \<open>method_declaration\<close>, \<open>class_declaration\<close> and
  the children of the \<open>class_body\<close> children walked under the class.
\<close>

definition java_declare :: "string \<Rightarrow> string \<Rightarrow> Node \<Rightarrow> string option \<Rightarrow> parse_result \<Rightarrow> parse_result" where
  "java_declare fp content node par st =
     (if ntype node = ''method_declaration'' then
        (case get_node_text node content ''identifier'' of
           None \<Rightarrow> st
         | Some nm \<Rightarrow>
             if nm = [] then st else record_declaration nm ''function'' fp node par st)
      else if ntype node = ''class_declaration'' then
        (case get_node_text node content ''identifier'' of
           None \<Rightarrow> st
         | Some nm \<Rightarrow>
             if nm = [] then st else record_declaration nm ''class'' fp node par st)
      else st)"

definition java_class_scope :: "string \<Rightarrow> string \<Rightarrow> Node \<Rightarrow> string option" where
  "java_class_scope fp content node =
     (if ntype node = ''method_declaration'' then None
      else if ntype node = ''class_declaration'' then
        (case get_node_text node content ''identifier'' of
           None \<Rightarrow> None
         | Some nm \<Rightarrow> if nm = [] then None else Some (fp @ '':'' @ nm))
      else None)"

function (sequential)
  java_traverse_node :: "string \<Rightarrow> string \<Rightarrow> Node \<Rightarrow> string option \<Rightarrow> parse_result \<Rightarrow> parse_result"
  and java_traverse_children :: "string \<Rightarrow> string \<Rightarrow> Node list \<Rightarrow> string option \<Rightarrow> parse_result \<Rightarrow> parse_result"
  and java_traverse_bodies :: "string \<Rightarrow> string \<Rightarrow> Node list \<Rightarrow> string option \<Rightarrow> parse_result \<Rightarrow> parse_result"
where
  "java_traverse_node fp content (Node ty sp ep sb eb cs) par st =
     java_traverse_children fp content cs par
       (case java_class_scope fp content (Node ty sp ep sb eb cs) of
          None \<Rightarrow> java_declare fp content (Node ty sp ep sb eb cs) par st
        | Some element_id \<Rightarrow>
            java_traverse_bodies fp content cs (Some element_id)
              (java_declare fp content (Node ty sp ep sb eb cs) par st))"
| "java_traverse_children fp content [] par st = st"
| "java_traverse_children fp content (child # rest) par st =
     java_traverse_children fp content rest par (java_traverse_node fp content child par st)"
| "java_traverse_bodies fp content [] par st = st"
| "java_traverse_bodies fp content (Node ty sp ep sb eb gcs # rest) par st =
     java_traverse_bodies fp content rest par
       (if ty = ''class_body'' then java_traverse_children fp content gcs par st else st)"
  by pat_completeness auto
termination
  by (relation "measure (case_sum (\<lambda>p. size (fst (snd (snd p))))
        (case_sum (\<lambda>p. size_list size (fst (snd (snd p))))
                  (\<lambda>p. size_list size (fst (snd (snd p))))))") auto

definition parse_java_ast :: "Node \<Rightarrow> string \<Rightarrow> string \<Rightarrow> parse_result" where
  "parse_java_ast root_node fp content = java_traverse_node fp content root_node None ([], [])"

section \<open>Pattern-based strategy (code\_analyzer.py)\<close>

text \<open>
  The patterns are the raw strings of the source; \<open>bs\<close> is the backslash. They are only
  ever handed to \<open>re.finditer\<close> (with \<open>re.MULTILINE\<close>), which is the \<open>finditer\<close> of
  the environment.
\<close>

definition py_func_pattern :: string where
  \<open>py_func_pattern = ''^def'' @ bs @ ''s+('' @ bs @ ''w+)'' @ bs @ ''s*'' @ bs @ ''([^)]*'' @ bs @ ''):''\<close>

definition py_class_pattern :: string where
  \<open>py_class_pattern = ''^class'' @ bs @ ''s+('' @ bs @ ''w+)(?:'' @ bs @ ''([^)]*'' @ bs @ ''))?:''\<close>

definition js_class_pattern :: string where
  \<open>js_class_pattern = ''class'' @ bs @ ''s+('' @ bs @ ''w+)(?:'' @ bs @ ''s+extends'' @ bs @ ''s+'' @ bs @ ''w+)?'' @ bs @ ''s*{''\<close>

definition java_method_pattern :: string where
  \<open>java_method_pattern = ''(?:public|private|protected)?'' @ bs @ ''s*(?:static'' @ bs @ ''s+)?(?:final'' @ bs @ ''s+)?(?:'' @ bs @ ''w+'' @ bs @ ''s+)*('' @ bs @ ''w+)'' @ bs @ ''s*'' @ bs @ ''([^)]*'' @ bs @ '')'' @ bs @ ''s*{''\<close>

definition java_class_pattern :: string where
  \<open>java_class_pattern = ''(?:public'' @ bs @ ''s+)?class'' @ bs @ ''s+('' @ bs @ ''w+)(?:'' @ bs @ ''s+extends'' @ bs @ ''s+'' @ bs @ ''w+)?(?:'' @ bs @ ''s+implements'' @ bs @ ''s+[^{]+)?'' @ bs @ ''s*{''\<close>

definition js_func_patterns :: "string list" where
  \<open>js_func_patterns =
     [''function'' @ bs @ ''s+('' @ bs @ ''w+)'' @ bs @ ''s*'' @ bs @ ''('',
      ''const'' @ bs @ ''s+('' @ bs @ ''w+)'' @ bs @ ''s*='' @ bs @ ''s*(?:async'' @ bs @ ''s+)?'' @ bs @ ''([^)]*'' @ bs @ '')'' @ bs @ ''s*=>'',
      ''let'' @ bs @ ''s+('' @ bs @ ''w+)'' @ bs @ ''s*='' @ bs @ ''s*(?:async'' @ bs @ ''s+)?'' @ bs @ ''([^)]*'' @ bs @ '')'' @ bs @ ''s*=>'',
      ''var'' @ bs @ ''s+('' @ bs @ ''w+)'' @ bs @ ''s*='' @ bs @ ''s*(?:async'' @ bs @ ''s+)?'' @ bs @ ''([^)]*'' @ bs @ '')'' @ bs @ ''s*=>'']\<close>

definition regex_element :: "string \<Rightarrow> string \<Rightarrow> string \<Rightarrow> rmatch \<Rightarrow> CodeElement" where
  "regex_element ty fp content m =
     (let line_num = int (count_list (take (match_start m) content) newline) + 1
      in \<lparr>name = group1 m, type = ty, file_path = fp,
          line_start = line_num, line_end = line_num,
          column_start = int (match_start m) - rfind newline content (match_start m) - 1,
          column_end = int (match_end m) - rfind newline content (match_start m) - 1,
          docstring = None, parameters = None, return_type = None,
          parent = None, children = None\<rparr>)"

text \<open>The loop \<open>for match in re.finditer(...)\<close>: \<open>elements[f"{file_path}:{name}"] = element\<close>.\<close>

fun regex_collect ::
  "string \<Rightarrow> string \<Rightarrow> string \<Rightarrow> rmatch list \<Rightarrow> (string, CodeElement) dict \<Rightarrow> (string, CodeElement) dict" where
  "regex_collect ty fp content [] els = els"
| "regex_collect ty fp content (m # ms) els =
     regex_collect ty fp content ms
       (AList.update (fp @ '':'' @ group1 m) (regex_element ty fp content m) els)"

definition regex_parse_python :: "env \<Rightarrow> string \<Rightarrow> string \<Rightarrow> parse_result" where
  "regex_parse_python e content fp =
     (let els = regex_collect ''function'' fp content (finditer e py_func_pattern content) [];
          els = regex_collect ''class'' fp content (finditer e py_class_pattern content) els
      in (els, []))"

definition regex_parse_javascript :: "env \<Rightarrow> string \<Rightarrow> string \<Rightarrow> parse_result" where
  "regex_parse_javascript e content fp =
     (let els = fold (\<lambda>pattern els. regex_collect ''function'' fp content (finditer e pattern content) els)
                  js_func_patterns [];
          els = regex_collect ''class'' fp content (finditer e js_class_pattern content) els
      in (els, []))"

definition regex_parse_java :: "env \<Rightarrow> string \<Rightarrow> string \<Rightarrow> parse_result" where
  "regex_parse_java e content fp =
     (let els = regex_collect ''function'' fp content (finditer e java_method_pattern content) [];
          els = regex_collect ''class'' fp content (finditer e java_class_pattern content) els
      in (els, []))"

text \<open>
  \<open>_parse_with_regex\<close>. The source also computes \<open>content.split('\n')\<close> and passes it on;
  none of the three parsers reads it, so it is left out.
\<close>

definition parse_with_regex :: "env \<Rightarrow> string \<Rightarrow> string \<Rightarrow> string \<Rightarrow> parse_result" where
  "parse_with_regex e content fp language =
     (if language = ''python'' then regex_parse_python e content fp
      else if language = ''javascript'' then regex_parse_javascript e content fp
      else if language = ''java'' then regex_parse_java e content fp
      else ([], []))"

section \<open>Analysing one file and the whole codebase (code\_analyzer.py)\<close>

text \<open>
  \<open>_parse_with_treesitter\<close>: everything happens inside \<open>try\<close>, and the handler of
  \<open>except Exception\<close> returns the result of the pattern-based strategy. What can raise
  there is the lookup \<open>self.parsers[language]\<close> (no such key) and the parser itself.
\<close>

definition parse_with_treesitter ::
  "CodeAnalyzer \<Rightarrow> env \<Rightarrow> string \<Rightarrow> string \<Rightarrow> string \<Rightarrow> parse_result" where
  "parse_with_treesitter self e content fp language =
     (case parsers self language of
        None \<Rightarrow> parse_with_regex e content fp language
      | Some parser \<Rightarrow>
          (case parser content of
             Inl err \<Rightarrow> parse_with_regex e content fp language
           | Inr root_node \<Rightarrow>
               if language = ''python'' then parse_python_ast root_node fp content
               else if language = ''javascript'' then parse_javascript_ast root_node fp content
               else if language = ''java'' then parse_java_ast root_node fp content
               else ([], [])))"

text \<open>
  \<open>_analyze_file\<close>. A read that raises is caught by the bare \<open>except\<close>, and the empty
  pair is returned. Then \<open>file_path.relative_to(Path(repo_root))\<close> is computed outside any
  \<open>try\<close>: for a path that is not under the root it raises, and nothing catches it. Then
  the strategy is chosen. \<open>analyze_file\<close> is the function for a file under the root, given
  by its relative path; \<open>analyze_file_in\<close> is the function for any path.
\<close>

definition analyze_file :: "CodeAnalyzer \<Rightarrow> env \<Rightarrow> string \<Rightarrow> string \<Rightarrow> parse_result" where
  "analyze_file self e fp language =
     (case read_text e fp of
        Inl err \<Rightarrow> ([], [])
      | Inr content \<Rightarrow>
          if parsers self language \<noteq> None
          then parse_with_treesitter self e content fp language
          else parse_with_regex e content fp language)"

definition analyze_file_in ::
  "CodeAnalyzer \<Rightarrow> env \<Rightarrow> string list \<Rightarrow> string \<Rightarrow> string \<Rightarrow> py_error + parse_result" where
  "analyze_file_in self e fpath language repo_root =
     (case read_text e (fs_name repo_root fpath) of
        Inl err \<Rightarrow> Inr ([], [])
      | Inr content \<Rightarrow>
          (case relative_to fpath (parts repo_root) of
             Inl err \<Rightarrow> Inl err
           | Inr rp \<Rightarrow>
               Inr (let relative_path = str_path rp
                    in if parsers self language \<noteq> None
                       then parse_with_treesitter self e content relative_path language
                       else parse_with_regex e content relative_path language)))"

definition extensions :: "(string, string list) dict" where
  "extensions =
     [(''python'', [''.py'']),
      (''jac'', [''.jac'']),
      (''javascript'', [''.js'', ''.jsx'']),
      (''java'', [''.java'']),
      (''cpp'', [''.cpp'', ''.cc'', ''.cxx'', ''.hpp'', ''.h'']),
      (''rust'', [''.rs'']),
      (''go'', [''.go''])]"

definition CodeAnalyzer_get_code_files :: "env \<Rightarrow> string \<Rightarrow> string list" where
  "CodeAnalyzer_get_code_files e language =
     (let lang_extensions = (case map_of extensions language of None \<Rightarrow> [] | Some exts \<Rightarrow> exts)
      in concat (map (\<lambda>ext. rglob e (''*'' @ ext)) lang_extensions))"

text \<open>\<open>elements.update(file_elements); relationships.extend(file_relationships)\<close>.\<close>

definition merge_file :: "parse_result \<Rightarrow> parse_result \<Rightarrow> parse_result" where
  "merge_file acc r = (dict_update (fst acc) (fst r), snd acc @ snd r)"

text \<open>
  The first loop of \<open>analyze_codebase\<close>: \<open>file_path = repo_path / entry_point\<close>, then
  \<open>if file_path.exists()\<close>, then \<open>_analyze_file\<close> and the merge. An error raised by
  \<open>exists\<close> or by \<open>_analyze_file\<close> ends the run.
\<close>

fun analyze_entry_points ::
  "CodeAnalyzer \<Rightarrow> env \<Rightarrow> string \<Rightarrow> string \<Rightarrow> string list \<Rightarrow> parse_result \<Rightarrow> py_error + parse_result" where
  "analyze_entry_points self e repo_path language [] acc = Inr acc"
| "analyze_entry_points self e repo_path language (entry_point # rest) acc =
     (let fpath = joinpath repo_path entry_point
      in case path_exists e (fs_name repo_path fpath) of
           Inl err \<Rightarrow> Inl err
         | Inr ex \<Rightarrow>
             if ex then
               (case analyze_file_in self e fpath language repo_path of
                  Inl err \<Rightarrow> Inl err
                | Inr r \<Rightarrow> analyze_entry_points self e repo_path language rest (merge_file acc r))
             else analyze_entry_points self e repo_path language rest acc)"

text \<open>
  The second loop: the files come from \<open>rglob\<close> under the root, so each is given by its
  relative path \<open>fp\<close>, which is what \<open>str(fpath.relative_to(repo_path))\<close> is, and
  \<open>_analyze_file\<close> cannot raise on it.
\<close>

fun analyze_remaining ::
  "CodeAnalyzer \<Rightarrow> env \<Rightarrow> string \<Rightarrow> string list \<Rightarrow> string list \<Rightarrow> parse_result \<Rightarrow> parse_result" where
  "analyze_remaining self e language entry_points [] acc = acc"
| "analyze_remaining self e language entry_points (fp # rest) acc =
     analyze_remaining self e language entry_points rest
       (if fp \<notin> set entry_points
        then merge_file acc (analyze_file self e fp language)
        else acc)"

text \<open>
  The last two loops of \<open>analyze_codebase\<close>: every element becomes a node, then every
  relationship of the flat list becomes an edge.
\<close>

definition build_graph :: "(string, CodeElement) dict \<Rightarrow> relationship list \<Rightarrow> DiGraph" where
  "build_graph els rels =
     fold (\<lambda>(from_id, to_id, rel_type) g. add_edge from_id to_id rel_type g) rels
       (fold (\<lambda>(element_id, element) g. add_node element_id element g) els empty_graph)"

definition analyze_codebase ::
  "CodeAnalyzer \<Rightarrow> env \<Rightarrow> string \<Rightarrow> string \<Rightarrow> string list \<Rightarrow> py_error + CodeContextGraph" where
  "analyze_codebase self e repo_path language entry_points =
     (case analyze_entry_points self e repo_path language entry_points ([], []) of
        Inl err \<Rightarrow> Inl err
      | Inr acc \<Rightarrow>
          (let acc = analyze_remaining self e language entry_points
                       (CodeAnalyzer_get_code_files e language) acc
           in Inr \<lparr>elements = fst acc, relationships = snd acc,
                   graph = build_graph (fst acc) (snd acc)\<rparr>))"

text \<open>The files a run that returns hands to \<open>_analyze_file\<close>, by name and in order.\<close>

definition analyzed_files :: "env \<Rightarrow> string \<Rightarrow> string \<Rightarrow> string list \<Rightarrow> string list" where
  "analyzed_files e repo_path language entry_points =
     map (\<lambda>entry_point. fs_name repo_path (joinpath repo_path entry_point))
       (filter (\<lambda>entry_point. path_exists e (fs_name repo_path (joinpath repo_path entry_point)) = Inr True)
          entry_points) @
     filter (\<lambda>fp. fp \<notin> set entry_points) (CodeAnalyzer_get_code_files e language)"

section \<open>Language detection (language\_detector.py)\<close>

definition EXTENSION_MAP :: "(string, string) dict" where
  "EXTENSION_MAP =
     [(''.py'', ''python''),
      (''.jac'', ''jac''),
      (''.js'', ''javascript''),
      (''.jsx'', ''javascript''),
      (''.ts'', ''typescript''),
      (''.tsx'', ''typescript''),
      (''.java'', ''java''),
      (''.cpp'', ''cpp''),
      (''.cc'', ''cpp''),
      (''.cxx'', ''cpp''),
      (''.c'', ''c''),
      (''.h'', ''c''),
      (''.hpp'', ''cpp''),
      (''.rs'', ''rust''),
      (''.go'', ''go''),
      (''.rb'', ''ruby''),
      (''.php'', ''php''),
      (''.swift'', ''swift''),
      (''.kt'', ''kotlin''),
      (''.scala'', ''scala''),
      (''.r'', ''r''),
      (''.m'', ''matlab''),
      (''.jl'', ''julia''),
      (''.sh'', ''shell''),
      (''.bash'', ''shell''),
      (''.zsh'', ''shell''),
      (''.fish'', ''shell''),
      (''.ps1'', ''powershell''),
      (''.bat'', ''batch''),
      (''.cmd'', ''batch''),
      (''.sql'', ''sql''),
      (''.html'', ''html''),
      (''.css'', ''css''),
      (''.scss'', ''scss''),
      (''.sass'', ''sass''),
      (''.less'', ''less''),
      (''.xml'', ''xml''),
      (''.yaml'', ''yaml''),
      (''.yml'', ''yaml''),
      (''.json'', ''json''),
      (''.toml'', ''toml''),
      (''.ini'', ''ini''),
      (''.cfg'', ''config''),
      (''.conf'', ''config''),
      (''.dockerfile'', ''dockerfile''),
      (''.dockerignore'', ''dockerignore''),
      (''.gitignore'', ''gitignore''),
      (''.md'', ''markdown''),
      (''.rst'', ''restructuredtext''),
      (''.tex'', ''latex''),
      (''.txt'', ''text'')]"

text \<open>
  The signatures are handed to \<open>re.search\<close> with \<open>re.MULTILINE | re.IGNORECASE\<close>, the
  \<open>re_search\<close> of the environment.
\<close>

definition LANGUAGE_PATTERNS :: "(string, string list) dict" where
  \<open>LANGUAGE_PATTERNS =
     [(''python'',
        [''^#!/usr/bin/env python'',
         ''^#!/usr/bin/python'',
         ''import'' @ bs @ ''s+'' @ bs @ ''w+'',
         ''from'' @ bs @ ''s+'' @ bs @ ''w+'' @ bs @ ''s+import'',
         ''def'' @ bs @ ''s+'' @ bs @ ''w+'' @ bs @ ''s*'' @ bs @ ''('',
         ''class'' @ bs @ ''s+'' @ bs @ ''w+'']),
      (''jac'',
        [''node'' @ bs @ ''s+'' @ bs @ ''w+'',
         ''walker'' @ bs @ ''s+'' @ bs @ ''w+'',
         ''edge'' @ bs @ ''s+'' @ bs @ ''w+'',
         ''graph'' @ bs @ ''s+'' @ bs @ ''w+'',
         ''can'' @ bs @ ''s+'' @ bs @ ''w+'',
         ''with'' @ bs @ ''s+entry'']),
      (''javascript'',
        [''^#!/usr/bin/env node'',
         ''^#!/usr/bin/node'',
         ''function'' @ bs @ ''s+'' @ bs @ ''w+'' @ bs @ ''s*'' @ bs @ ''('',
         ''const'' @ bs @ ''s+'' @ bs @ ''w+'' @ bs @ ''s*='',
         ''let'' @ bs @ ''s+'' @ bs @ ''w+'' @ bs @ ''s*='',
         ''var'' @ bs @ ''s+'' @ bs @ ''w+'' @ bs @ ''s*='',
         ''=>'' @ bs @ ''s*{'',
         ''require'' @ bs @ ''s*'' @ bs @ ''('',
         ''import'' @ bs @ ''s+.*from'']),
      (''java'',
        [''public'' @ bs @ ''s+class'' @ bs @ ''s+'' @ bs @ ''w+'',
         ''package'' @ bs @ ''s+'' @ bs @ ''w+'',
         ''import'' @ bs @ ''s+'' @ bs @ ''w+'',
         ''public'' @ bs @ ''s+static'' @ bs @ ''s+void'' @ bs @ ''s+main'',
         ''@Override'',
         ''@Component'',
         ''@Service'']),
      (''cpp'',
        [''#include'' @ bs @ ''s*<.*>'',
         ''#include'' @ bs @ ''s*".*"'',
         ''using'' @ bs @ ''s+namespace'' @ bs @ ''s+'' @ bs @ ''w+'',
         ''class'' @ bs @ ''s+'' @ bs @ ''w+'' @ bs @ ''s*{'',
         ''int'' @ bs @ ''s+main'' @ bs @ ''s*'' @ bs @ ''('',
         ''std::'']),
      (''rust'',
        [''use'' @ bs @ ''s+'' @ bs @ ''w+'',
         ''fn'' @ bs @ ''s+'' @ bs @ ''w+'' @ bs @ ''s*'' @ bs @ ''('',
         ''struct'' @ bs @ ''s+'' @ bs @ ''w+'',
         ''impl'' @ bs @ ''s+'' @ bs @ ''w+'',
         ''let'' @ bs @ ''s+'' @ bs @ ''w+'' @ bs @ ''s*='',
         ''match'' @ bs @ ''s+'' @ bs @ ''w+'']),
      (''go'',
        [''package'' @ bs @ ''s+'' @ bs @ ''w+'',
         ''import'' @ bs @ ''s+'' @ bs @ ''('',
         ''func'' @ bs @ ''s+'' @ bs @ ''w+'' @ bs @ ''s*'' @ bs @ ''('',
         ''type'' @ bs @ ''s+'' @ bs @ ''w+'' @ bs @ ''s+struct'',
         ''interface'' @ bs @ ''s+'' @ bs @ ''w+'',
         ''var'' @ bs @ ''s+'' @ bs @ ''w+'' @ bs @ ''s*=''])]\<close>

text \<open>The set literal of the source; only membership in it is ever asked.\<close>

definition exclude_dirs :: "string list" where
  "exclude_dirs =
     [''.git'', ''node_modules'', ''__pycache__'', ''.pytest_cache'', ''venv'',
      ''env'', ''.venv'', ''.env'', ''build'', ''dist'',
      ''target'', ''.cargo'', ''.idea'', ''.vscode'', ''.vs'',
      ''coverage'', ''.coverage'', ''htmlcov'', ''.tox'', ''site-packages'',
      ''.mypy_cache'', ''.ruff_cache'']"

text \<open>
  \<open>pathlib\<close>: the final component of a path, and \<open>suffix\<close>, which is the final component
  from its last dot on, provided the dot is neither its first nor its last character.
\<close>

definition path_name :: "string \<Rightarrow> string" where
  "path_name p = (case rev (parts p) of [] \<Rightarrow> [] | n # _ \<Rightarrow> if n = ''/'' then [] else n)"

definition suffix_of :: "string \<Rightarrow> string" where
  "suffix_of p =
     (let nm = path_name p; i = rfind (CHR ''.'') nm (length nm)
      in if 0 < i \<and> i < int (length nm) - 1 then drop (nat i) nm else [])"

definition is_binary_file :: "env \<Rightarrow> string \<Rightarrow> bool" where
  "is_binary_file e fp =
     (case read_bytes e fp of
        Inl err \<Rightarrow> True
      | Inr data \<Rightarrow> CHR 0x00 \<in> set (take 1024 data))"

text \<open>
  \<open>LanguageDetector._get_code_files\<close>. The components tested against \<open>exclude_dirs\<close> are
  those of the full path, the root's own included.
\<close>

definition LanguageDetector_get_code_files :: "env \<Rightarrow> string \<Rightarrow> string list" where
  "LanguageDetector_get_code_files e repo_path =
     filter
       (\<lambda>fp. is_file e fp \<and>
             \<not> list_ex (\<lambda>excluded. excluded \<in> set (parts (repo_path @ ''/'' @ fp))) exclude_dirs \<and>
             \<not> (is_binary_file e fp \<or> st_size e fp > 10 * 1024 * 1024))
       (rglob e ''*'')"

text \<open>The two nested loops over \<open>LANGUAGE_PATTERNS\<close>, which return at the first match.\<close>

fun detect_by_content :: "env \<Rightarrow> string \<Rightarrow> (string, string list) dict \<Rightarrow> string option" where
  "detect_by_content e content [] = None"
| "detect_by_content e content ((language, patterns) # rest) =
     (if list_ex (\<lambda>pattern. re_search e pattern content) patterns then Some language
      else detect_by_content e content rest)"

definition detect_file_language :: "env \<Rightarrow> string \<Rightarrow> string option" where
  "detect_file_language e fp =
     (let extension = lower (suffix_of fp)
      in case map_of EXTENSION_MAP extension of
           Some language \<Rightarrow> Some language
         | None \<Rightarrow>
             (case read_text e fp of
                Inl err \<Rightarrow> None
              | Inr text \<Rightarrow> detect_by_content e (take 1024 text) LANGUAGE_PATTERNS))"

text \<open>\<open>sorted(items, key=count, reverse=True)\<close> is stable: equal counts keep their order.\<close>

definition get_primary_language :: "(string, nat) dict \<Rightarrow> string" where
  "get_primary_language file_counts =
     (if file_counts = [] then ''unknown''
      else fst (hd (sort_key (\<lambda>x. - int (snd x)) file_counts)))"

fun max_list :: "nat list \<Rightarrow> nat" where
  "max_list [] = 0"
| "max_list (x # xs) = fold max xs x"

text \<open>
  Python's \<open>/\<close> on two integers is the float nearest to the quotient; this is the
  \<open>true_div\<close> of the environment. The float \<open>0.0\<close> is \<open>0\<close>.
\<close>

definition calculate_confidence :: "env \<Rightarrow> (string, nat) dict \<Rightarrow> real" where
  "calculate_confidence e file_counts =
     (if file_counts = [] then 0
      else let total_files = sum_list (map snd file_counts)
           in if total_files = 0 then 0
              else let primary_count = max_list (map snd file_counts)
                   in true_div e (int primary_count) (int total_files))"

record detection =
  primary_language :: string
  detected_languages :: "string set"
  file_counts :: "(string, nat) dict"
  total_files :: nat
  confidence :: real

text \<open>
  The scanning loop of \<open>detect_languages_in_repo\<close>:
  \<open>file_counts[language] = file_counts.get(language, 0) + 1\<close> for every classified file.
\<close>

definition count_language :: "string option \<Rightarrow> string set \<times> (string, nat) dict \<Rightarrow> string set \<times> (string, nat) dict" where
  "count_language language st =
     (case language of
        None \<Rightarrow> st
      | Some l \<Rightarrow>
          (insert l (fst st),
           AList.update l ((case map_of (snd st) l of None \<Rightarrow> 0 | Some n \<Rightarrow> n) + 1) (snd st)))"

fun scan_files :: "env \<Rightarrow> string list \<Rightarrow> string set \<times> (string, nat) dict \<Rightarrow> string set \<times> (string, nat) dict" where
  "scan_files e [] st = st"
| "scan_files e (fp # rest) st = scan_files e rest (count_language (detect_file_language e fp) st)"

text \<open>
  \<open>detect_languages_in_repo\<close>. The root itself is the repository-relative path \<open>.\<close>; when
  it does not exist the source raises \<open>ValueError\<close>. \<open>list(self.detected_languages)\<close> lists
  a set in no specified order, so the model keeps the set.
\<close>

definition detect_languages_in_repo :: "env \<Rightarrow> string \<Rightarrow> py_error + detection" where
  "detect_languages_in_repo e repo_path =
     (case path_exists e ''.'' of
        Inl err \<Rightarrow> Inl err
      | Inr ex \<Rightarrow>
          if \<not> ex then Inl (ValueError ''Repository path does not exist'')
          else let st = scan_files e (LanguageDetector_get_code_files e repo_path) ({}, [])
               in Inr \<lparr>primary_language = get_primary_language (snd st),
                       detected_languages = fst st,
                       file_counts = snd st,
                       total_files = sum_list (map snd (snd st)),
                       confidence = calculate_confidence e (snd st)\<rparr>)"

section \<open>Notions used in the statements\<close>

text \<open>Every relationship joins two keys of the element mapping.\<close>

definition rels_closed :: "parse_result \<Rightarrow> bool" where
  "rels_closed st =
     (\<forall>r \<in> set (snd st). fst r \<in> set (keys (fst st)) \<and> fst (snd r) \<in> set (keys (fst st)))"

text \<open>Every key of the element mapping starts with the file path and a colon.\<close>

definition keys_qualified :: "string \<Rightarrow> (string, CodeElement) dict \<Rightarrow> bool" where
  "keys_qualified fp els = (\<forall>k \<in> set (keys els). prefix (fp @ '':'') k)"

text \<open>
  The id formed from a path and an element's own name: \<open>{file_path}:{name}\<close>, and
  \<open>{file_path}:import:{name}\<close> for an import. Every record of a mapping belongs to the file
  \<open>fp\<close> and is stored under the id formed from \<open>fp\<close> and its own name.
\<close>

definition element_id :: "string \<Rightarrow> CodeElement \<Rightarrow> string" where
  "element_id fp el =
     (if type el = ''import'' then fp @ '':import:'' @ name el else fp @ '':'' @ name el)"

definition ids_named :: "string \<Rightarrow> (string, CodeElement) dict \<Rightarrow> bool" where
  "ids_named fp els =
     (\<forall>kv \<in> set els. file_path (snd kv) = fp \<and> fst kv = element_id fp (snd kv))"

text \<open>
  The state of a traversal of the file \<open>fp\<close> is well formed; a parent that would be
  recorded in a relationship is a key; and a later state has all keys of an earlier one.
\<close>

definition wf_state :: "string \<Rightarrow> parse_result \<Rightarrow> bool" where
  "wf_state fp st = (rels_closed st \<and> keys_qualified fp (fst st) \<and> ids_named fp (fst st))"

definition parent_known :: "string option \<Rightarrow> parse_result \<Rightarrow> bool" where
  "parent_known par st = (truthy par \<longrightarrow> the par \<in> set (keys (fst st)))"

definition extends :: "parse_result \<Rightarrow> parse_result \<Rightarrow> bool" where
  "extends st st' = (set (keys (fst st)) \<subseteq> set (keys (fst st')))"

text \<open>
  A path has the extension \<open>x\<close>, up to the case of letters: its final component is a
  non-empty stem followed by a spelling of \<open>x\<close>.
\<close>

definition has_extension :: "string \<Rightarrow> string \<Rightarrow> bool" where
  "has_extension p x =
     (\<exists>d stem y. p = d @ stem @ y \<and> (d = [] \<or> last d = CHR ''/'') \<and>
        stem \<noteq> [] \<and> CHR ''/'' \<notin> set stem \<and> lower y = x)"

text \<open>The classification of each file the detector scans, in scanning order.\<close>

definition classified :: "env \<Rightarrow> string \<Rightarrow> string option list" where
  "classified e repo_path = map (detect_file_language e) (LanguageDetector_get_code_files e repo_path)"

section \<open>Example inputs\<close>

definition ccg0 :: CodeContextGraph where
  "ccg0 =
     \<lparr>elements = [],
      relationships =
        [(''a'', ''b'', ''calls''), (''c'', ''d'', ''inherits''), (''a'', ''e'', ''calls'')],
      graph = empty_graph\<rparr>"

text \<open>
  A small repository, rooted at \<open>/repo\<close>: \<open>a.py\<close> holds a class \<open>Foo\<close> with a method
  \<open>bar\<close> and a top-level function \<open>bar\<close>; \<open>b.py\<close> cannot be read; \<open>bin.py\<close> has a NUL
  byte after its first line; \<open>notes/Main.PY\<close>, \<open>README\<close> and \<open>util.js\<close> are empty; asking
  whether \<open>locked/main.py\<close> exists raises. Outside the repository there is the readable
  file \<open>/etc/hostname\<close>. The quotient of 2 and 3 as a float is
  \<open>0.6666666666666666\<close>, which is 6004799503160661 / 2^53.
\<close>

definition content_a :: string where
  "content_a =
     ''class Foo:'' @ [newline] @ ''  def bar(self): pass'' @ [newline] @
     ''def bar(): pass'' @ [newline]"

definition content_bin :: string where
  "content_bin = ''def f():'' @ [newline, CHR 0x00]"

definition tree_a :: Node where
  "tree_a =
     Node ''module'' (0, 0) (3, 0) 0 49
       [Node ''class_definition'' (0, 0) (1, 21) 0 32
          [Node ''identifier'' (0, 6) (0, 9) 6 9 [],
           Node ''block'' (1, 2) (1, 21) 13 32
             [Node ''function_definition'' (1, 2) (1, 21) 13 32
                [Node ''identifier'' (1, 6) (1, 9) 17 20 []]]],
        Node ''function_definition'' (2, 0) (2, 15) 33 48
          [Node ''identifier'' (2, 4) (2, 7) 37 40 []]]"

definition env0 :: env where
  "env0 =
     \<lparr>path_exists =
        (\<lambda>p. if p = ''locked/main.py'' then Inl OSError
             else Inr (p \<in> set [''.'', ''a.py'', ''b.py'', ''bin.py'', ''notes'', ''notes/Main.PY'',
                                  ''README'', ''util.js'', ''/etc/hostname''])),
      is_file =
        (\<lambda>p. p \<in> set [''a.py'', ''b.py'', ''bin.py'', ''notes/Main.PY'', ''README'', ''util.js'']),
      rglob =
        (\<lambda>pat. if pat = ''*.py'' then [''a.py'', ''b.py'', ''bin.py'']
               else if pat = ''*.js'' then [''util.js'']
               else if pat = ''*''
                 then [''a.py'', ''b.py'', ''bin.py'', ''notes'', ''notes/Main.PY'', ''README'',
                       ''util.js'']
               else []),
      read_bytes = (\<lambda>p. if p = ''a.py'' then Inr content_a
                          else if p = ''bin.py'' then Inr content_bin
                          else if p = ''b.py'' then Inl OSError
                          else if p = ''/etc/hostname'' then Inr ''host''
                          else Inr []),
      st_size = (\<lambda>p. if p = ''a.py'' then 49 else if p = ''bin.py'' then 10 else 0),
      decode_ignore = (\<lambda>data. data),
      finditer = (\<lambda>pat content.
                    if pat = py_func_pattern \<and> content = content_a
                      then [\<lparr>group1 = ''bar'', match_start = 33, match_end = 43\<rparr>]
                    else if pat = py_class_pattern \<and> content = content_a
                      then [\<lparr>group1 = ''Foo'', match_start = 0, match_end = 10\<rparr>]
                    else if pat = py_func_pattern \<and> content = content_bin
                      then [\<lparr>group1 = ''f'', match_start = 0, match_end = 8\<rparr>]
                    else []),
      re_search = (\<lambda>pat content. False),
      true_div = (\<lambda>a b. if a = 2 \<and> b = 3 then 6004799503160661 / 9007199254740992
                       else real_of_int a / real_of_int b)\<rparr>"

text \<open>An analyser without any grammar, and one whose Python grammar only parses \<open>a.py\<close>.\<close>

definition analyzer_none :: CodeAnalyzer where
  "analyzer_none = \<lparr>parsers = Map.empty\<rparr>"

definition analyzer_py :: CodeAnalyzer where
  "analyzer_py =
     \<lparr>parsers = [''python'' \<mapsto> (\<lambda>content. if content = content_a then Inr tree_a else Inl ParseError)]\<rparr>"

section \<open>Facts about strings\<close>

lemma str_in_iff: "str_in sub s \<longleftrightarrow> (\<exists>ps ss. s = ps @ sub @ ss)"
proof (induction s)
  case Nil
  then show ?case by auto
next
  case (Cons c cs)
  have "str_in sub cs \<longleftrightarrow> sublist sub cs"
    using Cons by (simp only: sublist_def)
  then have "str_in sub (c # cs) \<longleftrightarrow> sublist sub (c # cs)"
    by (simp add: sublist_Cons_right)
  then show ?case by (simp only: sublist_def)
qed

lemma lower_append: "lower (a @ b) = lower a @ lower b"
  by (simp add: lower_def)

lemma lower_split:
  "lower q = ps @ w @ ss \<Longrightarrow> \<exists>pre mid post. q = pre @ mid @ post \<and> lower mid = w"
proof -
  assume h: "lower q = ps @ w @ ss"
  let ?pre = "take (length ps) q"
  let ?mid = "take (length w) (drop (length ps) q)"
  let ?post = "drop (length w) (drop (length ps) q)"
  have q: "q = ?pre @ ?mid @ ?post" by (simp only: append_take_drop_id)
  have "lower ?mid = take (length w) (drop (length ps) (lower q))"
    by (simp add: lower_def take_map drop_map)
  also have "\<dots> = w" by (simp add: h)
  finally show ?thesis using q by blast
qed

lemma contains_ci_iff: "contains_ci w q \<longleftrightarrow> str_in w (lower q)"
proof
  assume "contains_ci w q"
  then obtain pre mid post where "q = pre @ mid @ post" "lower mid = w"
    by (auto simp: contains_ci_def)
  then have "lower q = lower pre @ w @ lower post" by (simp add: lower_append)
  then show "str_in w (lower q)" unfolding str_in_iff by blast
next
  assume "str_in w (lower q)"
  then obtain ps ss where "lower q = ps @ w @ ss" unfolding str_in_iff by blast
  then show "contains_ci w q" unfolding contains_ci_def by (rule lower_split)
qed

lemma collect_kind_eq: "collect_kind kind rs acc = acc @ of_kind kind rs"
  by (induction kind rs acc rule: collect_kind.induct) (auto simp: of_kind_def)

section \<open>The relationship query\<close>

text \<open>
  C5 (as amended). A query that contains \<open>calls\<close> case-insensitively returns exactly the
  relationships of kind \<open>calls\<close>, as records, in discovery order. A query that contains
  \<open>inherits\<close> case-insensitively and does not contain \<open>calls\<close> returns exactly those of
  kind \<open>inherits\<close>. A query that contains neither returns the empty list.
\<close>

theorem query_by_kind:
  "(contains_ci ''calls'' q \<longrightarrow>
      query_relationships ccg q = of_kind ''calls'' (relationships ccg)) \<and>
   (\<not> contains_ci ''calls'' q \<and> contains_ci ''inherits'' q \<longrightarrow>
      query_relationships ccg q = of_kind ''inherits'' (relationships ccg)) \<and>
   (\<not> contains_ci ''calls'' q \<and> \<not> contains_ci ''inherits'' q \<longrightarrow>
      query_relationships ccg q = [])"
  by (simp add: query_relationships_def contains_ci_iff collect_kind_eq)

theorem query_by_kind_witness:
  "contains_ci ''calls'' ''Show me all CALLS'' \<and>
   query_relationships ccg0 ''Show me all CALLS'' =
     [\<lparr>from_id = ''a'', to_id = ''b'', relationship = ''calls''\<rparr>,
      \<lparr>from_id = ''a'', to_id = ''e'', relationship = ''calls''\<rparr>] \<and>
   \<not> contains_ci ''calls'' ''who Inherits?'' \<and> contains_ci ''inherits'' ''who Inherits?'' \<and>
   query_relationships ccg0 ''who Inherits?'' =
     [\<lparr>from_id = ''c'', to_id = ''d'', relationship = ''inherits''\<rparr>] \<and>
   \<not> contains_ci ''calls'' ''contains'' \<and> \<not> contains_ci ''inherits'' ''contains'' \<and>
   query_relationships ccg0 ''contains'' = []"
  using query_by_kind [of "''Show me all CALLS''" ccg0]
    query_by_kind [of "''who Inherits?''" ccg0]
    query_by_kind [of "''contains''" ccg0]
  by (simp add: contains_ci_iff lower_def lower_char_def ccg0_def of_kind_def)

text \<open>
  C5 as stated fails: the query \<open>calls and inherits\<close> contains \<open>inherits\<close>, yet the result
  is not the list of \<open>inherits\<close> relationships.
\<close>

theorem query_inherits_counterexample:
  "contains_ci ''inherits'' ''calls and inherits'' \<and>
   query_relationships ccg0 ''calls and inherits'' \<noteq> of_kind ''inherits'' (relationships ccg0)"
  by (simp add: contains_ci_iff lower_def lower_char_def ccg0_def of_kind_def
      query_relationships_def)

text \<open>
  C9. A query that contains both \<open>calls\<close> and \<open>inherits\<close> case-insensitively returns the
  relationships of kind \<open>calls\<close> only: the \<open>calls\<close> branch comes first and the \<open>inherits\<close>
  branch is an \<open>elif\<close>.
\<close>

theorem query_calls_precedence:
  "contains_ci ''calls'' q \<Longrightarrow> contains_ci ''inherits'' q \<Longrightarrow>
   query_relationships ccg q = of_kind ''calls'' (relationships ccg) \<and>
   (\<forall>r \<in> set (query_relationships ccg q).
      relationship r = ''calls'' \<and> relationship r \<noteq> ''inherits'')"
  by (auto simp: query_relationships_def contains_ci_iff collect_kind_eq of_kind_def)

theorem query_calls_precedence_witness:
  "contains_ci ''calls'' ''calls and inherits'' \<and>
   contains_ci ''inherits'' ''calls and inherits'' \<and>
   query_relationships ccg0 ''calls and inherits'' =
     [\<lparr>from_id = ''a'', to_id = ''b'', relationship = ''calls''\<rparr>,
      \<lparr>from_id = ''a'', to_id = ''e'', relationship = ''calls''\<rparr>]"
  using query_calls_precedence [of "''calls and inherits''" ccg0]
  by (simp add: contains_ci_iff lower_def lower_char_def ccg0_def of_kind_def)

section \<open>Choice of strategy and errors\<close>

text \<open>
  C10. Handed a language other than \<open>python\<close>, \<open>javascript\<close> and \<open>java\<close>, the
  pattern-based strategy returns an empty element mapping and an empty relationship list;
  so a file of such a language for which no grammar is registered contributes nothing.
\<close>

theorem regex_other_language_empty:
  "language \<noteq> ''python'' \<Longrightarrow> language \<noteq> ''javascript'' \<Longrightarrow> language \<noteq> ''java'' \<Longrightarrow>
   parse_with_regex e content fp language = ([], []) \<and>
   (parsers self language = None \<longrightarrow> analyze_file self e fp language = ([], []))"
  by (simp add: parse_with_regex_def analyze_file_def split: sum.splits)

theorem regex_other_language_empty_witness:
  "parse_with_regex env0 content_a ''a.py'' ''go'' = ([], []) \<and>
   analyze_file analyzer_none env0 ''a.py'' ''go'' = ([], [])"
  using regex_other_language_empty [of "''go''" env0 content_a "''a.py''" analyzer_none]
  by (simp add: analyzer_none_def)



section \<open>Classification by extension\<close>

lemma split_on_no_sep: "c \<notin> set t \<Longrightarrow> split_on c t = [t]"
  by (induction t) auto

lemma split_on_not_Nil: "split_on c s \<noteq> []"
  by (induction s) (auto split: list.splits)

lemma split_on_append_no_sep:
  "c \<notin> set t \<Longrightarrow> split_on c (d @ t) = butlast (split_on c d) @ [last (split_on c d) @ t]"
proof (induction d)
  case Nil
  then show ?case by (simp add: split_on_no_sep)
next
  case (Cons x xs)
  obtain w ws where w: "split_on c xs = w # ws"
    using split_on_not_Nil [of c xs] by (cases "split_on c xs") auto
  show ?case
  proof (cases "x = c")
    case True
    then show ?thesis using Cons w by simp
  next
    case False
    then show ?thesis using Cons w by (cases ws) auto
  qed
qed

lemma split_on_sep_two: "c \<in> set s \<Longrightarrow> \<exists>w v vs. split_on c s = w # v # vs"
proof (induction s)
  case Nil
  then show ?case by simp
next
  case (Cons x xs)
  obtain w ws where w: "split_on c xs = w # ws"
    using split_on_not_Nil [of c xs] by (cases "split_on c xs") auto
  show ?case
  proof (cases "x = c")
    case True
    then show ?thesis using w by simp
  next
    case False
    then have "c \<in> set xs" using Cons.prems by simp
    then show ?thesis using Cons.IH False by auto
  qed
qed

lemma split_on_last_sep: "d = [] \<or> last d = c \<Longrightarrow> last (split_on c d) = []"
proof (induction d)
  case Nil
  then show ?case by simp
next
  case (Cons x xs)
  show ?case
  proof (cases "xs = []")
    case True
    then show ?thesis using Cons by simp
  next
    case False
    then have lc: "last xs = c" using Cons.prems by simp
    then have l: "last (split_on c xs) = []" using Cons.IH by simp
    have "c \<in> set xs" using lc False last_in_set by metis
    then obtain w v vs where w: "split_on c xs = w # v # vs"
      using split_on_sep_two by blast
    show ?thesis using w l by (cases "x = c") auto
  qed
qed

lemma path_name_final:
  assumes "d = [] \<or> last d = CHR ''/''" and "CHR ''/'' \<notin> set n" and "n \<noteq> []" and "n \<noteq> ''.''"
    and "n \<noteq> ''/''"
  shows "path_name (d @ n) = n"
proof -
  have "split_on (CHR ''/'') (d @ n) = butlast (split_on (CHR ''/'') d) @ [n]"
    using assms(1,2) by (simp add: split_on_append_no_sep split_on_last_sep)
  then have "\<exists>xs. parts (d @ n) = xs @ [n]"
    using assms(3,4) by (simp add: parts_def)
  then show ?thesis using assms(5) by (auto simp: path_name_def)
qed

lemma lower_char_dot: "lower_char c = CHR ''.'' \<Longrightarrow> c = CHR ''.''"
  by (auto simp: lower_char_def split: option.splits if_splits)

lemma lower_char_p: "lower_char c = CHR ''p'' \<Longrightarrow> c \<noteq> CHR ''.'' \<and> c \<noteq> CHR ''/''"
  by (auto simp: lower_char_def)

lemma lower_char_y: "lower_char c = CHR ''y'' \<Longrightarrow> c \<noteq> CHR ''.'' \<and> c \<noteq> CHR ''/''"
  by (auto simp: lower_char_def)

lemma lower_py:
  assumes "lower y = ''.py''"
  obtains c2 c3 where "y = [CHR ''.'', c2, c3]" "c2 \<noteq> CHR ''.''" "c2 \<noteq> CHR ''/''"
    "c3 \<noteq> CHR ''.''" "c3 \<noteq> CHR ''/''"
proof -
  from assms obtain c1 c2 c3 where y: "y = [c1, c2, c3]"
    and l: "lower_char c1 = CHR ''.''" "lower_char c2 = CHR ''p''" "lower_char c3 = CHR ''y''"
    by (auto simp: lower_def)
  show ?thesis
    using that [of c2 c3] y l lower_char_dot lower_char_p lower_char_y by blast
qed

lemma suffix_of_py:
  assumes "d = [] \<or> last d = CHR ''/''" and "stem \<noteq> []" and "CHR ''/'' \<notin> set stem"
    and "lower y = ''.py''"
  shows "suffix_of (d @ stem @ y) = y"
proof -
  from assms(4) obtain c2 c3 where y: "y = [CHR ''.'', c2, c3]"
    and c: "c2 \<noteq> CHR ''.''" "c2 \<noteq> CHR ''/''" "c3 \<noteq> CHR ''.''" "c3 \<noteq> CHR ''/''"
    by (rule lower_py)
  have n: "path_name (d @ stem @ y) = stem @ y"
    using assms(1-3) y c by (intro path_name_final) auto
  have r: "rfind (CHR ''.'') (stem @ y) (length (stem @ y)) = int (length stem)"
    using y c by (simp add: rfind_def)
  show ?thesis
    unfolding suffix_of_def n Let_def r using assms(2) y by simp
qed

text \<open>
  C7. A file whose path has the extension \<open>.py\<close>, in any spelling of upper and lower case,
  is classified as \<open>python\<close> whatever the file holds and whatever the signatures match:
  the extension table is looked up first and its answer is returned at once.
\<close>

theorem py_extension_is_python:
  "has_extension p ''.py'' \<Longrightarrow> detect_file_language e p = Some ''python''"
proof -
  assume "has_extension p ''.py''"
  then obtain d stem y where p: "p = d @ stem @ y" and d: "d = [] \<or> last d = CHR ''/''"
    and s: "stem \<noteq> []" "CHR ''/'' \<notin> set stem" and y: "lower y = ''.py''"
    by (auto simp: has_extension_def)
  have "lower (suffix_of p) = ''.py''"
    using suffix_of_py [OF d s y] p y by simp
  then show ?thesis
    by (simp add: detect_file_language_def EXTENSION_MAP_def)
qed

theorem py_extension_is_python_witness:
  "has_extension ''notes/Main.PY'' ''.py'' \<and> detect_file_language env0 ''notes/Main.PY'' = Some ''python''"
proof -
  have h: "has_extension ''notes/Main.PY'' ''.py''"
    unfolding has_extension_def
    by (rule exI [of _ "''notes/''"], rule exI [of _ "''Main''"], rule exI [of _ "''.PY''"])
      (simp add: lower_def lower_char_def)
  show ?thesis using py_extension_is_python [OF h, of env0] h by simp
qed

section \<open>Repository-level aggregation\<close>

lemma sum_update:
  "sum_list (map snd (AList.update k v al)) + (case map_of al k of None \<Rightarrow> 0 | Some n \<Rightarrow> n) =
   sum_list (map snd al) + (v::nat)"
  by (induction al) auto

lemma count_language_sum:
  "sum_list (map snd (snd (count_language x st))) =
   sum_list (map snd (snd st)) + (if x = None then 0 else 1)"
proof (cases x)
  case None
  then show ?thesis by (simp add: count_language_def)
next
  case (Some l)
  show ?thesis
    using sum_update [of l "(case map_of (snd st) l of None \<Rightarrow> 0 | Some n \<Rightarrow> n) + 1" "snd st"] Some
    by (simp add: count_language_def)
qed

lemma count_language_map_of:
  "map_of (snd (count_language x st)) l =
   (if x = Some l then Some ((case map_of (snd st) l of None \<Rightarrow> 0 | Some n \<Rightarrow> n) + 1)
    else map_of (snd st) l)"
  by (cases x) (auto simp: count_language_def update_conv')

lemma count_language_distinct:
  "distinct (map fst (snd st)) \<Longrightarrow> distinct (map fst (snd (count_language x st)))"
  by (cases x) (auto simp: count_language_def distinct_update)

lemma scan_files_sum:
  "sum_list (map snd (snd (scan_files e files st))) =
   sum_list (map snd (snd st)) + length (filter (\<lambda>x. x \<noteq> None) (map (detect_file_language e) files))"
  by (induction files arbitrary: st) (auto simp: count_language_sum)

lemma scan_files_distinct:
  "distinct (map fst (snd st)) \<Longrightarrow> distinct (map fst (snd (scan_files e files st)))"
  by (induction files arbitrary: st) (auto simp: count_language_distinct)

lemma scan_files_map_of:
  "map_of (snd (scan_files e files st)) l =
   (if count_list (map (detect_file_language e) files) (Some l) = 0 then map_of (snd st) l
    else Some ((case map_of (snd st) l of None \<Rightarrow> 0 | Some n \<Rightarrow> n) +
               count_list (map (detect_file_language e) files) (Some l)))"
  by (induction files arbitrary: st) (auto simp: count_language_map_of)

lemma hd_sort_key:
  assumes "xs \<noteq> []"
  shows "hd (sort_key f xs) \<in> set xs \<and> (\<forall>y \<in> set xs. f (hd (sort_key f xs)) \<le> f y)"
proof -
  have "sort_key f xs \<noteq> []" using assms by (metis length_sort length_0_conv)
  then obtain z zs where z: "sort_key f xs = z # zs" by (cases "sort_key f xs") auto
  have "sorted (map f (z # zs))" using sorted_sort_key [of f xs] z by simp
  then have "\<forall>y \<in> set (z # zs). f z \<le> f y" by auto
  moreover have "set (z # zs) = set xs" using set_sort [of f xs] z by simp
  ultimately show ?thesis using z by auto
qed

lemma max_list_greatest:
  "c \<in> set xs \<Longrightarrow> \<forall>y \<in> set xs. y \<le> c \<Longrightarrow> max_list xs = c"
proof -
  assume c: "c \<in> set xs" and m: "\<forall>y \<in> set xs. y \<le> c"
  then obtain x xs' where xs: "xs = x # xs'" by (cases xs) auto
  have "max_list xs = fold max xs' x" by (simp add: xs)
  also have "\<dots> = Max (set (x # xs'))" by (rule Max.set_eq_fold [symmetric])
  also have "\<dots> = c" using c m unfolding xs by (intro Max_eqI) auto
  finally show ?thesis .
qed

lemma primary_language_greatest:
  assumes "counts \<noteq> []"
  shows "\<exists>c. (get_primary_language counts, c) \<in> set counts \<and> (\<forall>y \<in> set counts. snd y \<le> c) \<and>
             max_list (map snd counts) = c"
proof -
  let ?x = "hd (sort_key (\<lambda>x. - int (snd x)) counts)"
  have h: "?x \<in> set counts" "\<forall>y \<in> set counts. - int (snd ?x) \<le> - int (snd y)"
    using hd_sort_key [OF assms, of "\<lambda>x. - int (snd x)"] by auto
  then have g: "\<forall>y \<in> set counts. snd y \<le> snd ?x" by auto
  have "max_list (map snd counts) = snd ?x"
    using h(1) g by (intro max_list_greatest) auto
  moreover have "get_primary_language counts = fst ?x"
    using assms by (simp add: get_primary_language_def)
  ultimately show ?thesis using h(1) g by (intro exI [of _ "snd ?x"]) auto
qed

lemmas detector_defs =
  detect_languages_in_repo_def LanguageDetector_get_code_files_def parts_def exclude_dirs_def
  is_binary_file_def detect_file_language_def suffix_of_def path_name_def rfind_def lower_def
  lower_char_def EXTENSION_MAP_def get_primary_language_def calculate_confidence_def
  count_language_def read_text_def content_a_def content_bin_def classified_def
  LANGUAGE_PATTERNS_def

text \<open>
  C6. For a detection run that returns: the total is the number of classified files; when
  no file was classified the confidence is 0; otherwise the primary language is one that
  was assigned to some file and to at least as many files as any other language, and the
  confidence is the number of files classified as the primary language divided by the
  number of classified files, as Python's division of the two integers returns it.
\<close>

theorem language_aggregation:
  assumes "detect_languages_in_repo e repo = Inr d"
  shows "total_files d = length (filter (\<lambda>x. x \<noteq> None) (classified e repo)) \<and>
    (total_files d = 0 \<longrightarrow> confidence d = 0) \<and>
    (0 < total_files d \<longrightarrow>
       0 < count_list (classified e repo) (Some (primary_language d)) \<and>
       (\<forall>l. count_list (classified e repo) (Some l)
              \<le> count_list (classified e repo) (Some (primary_language d))) \<and>
       confidence d =
         true_div e (int (count_list (classified e repo) (Some (primary_language d))))
           (int (total_files d)))"
proof -
  let ?files = "LanguageDetector_get_code_files e repo"
  let ?counts = "snd (scan_files e ?files ({}, []))"
  let ?n = "\<lambda>l. count_list (classified e repo) (Some l)"
  have d: "primary_language d = get_primary_language ?counts"
    "total_files d = sum_list (map snd ?counts)" "confidence d = calculate_confidence e ?counts"
    using assms by (auto simp: detect_languages_in_repo_def Let_def split: if_splits sum.splits)
  have total: "sum_list (map snd ?counts) = length (filter (\<lambda>x. x \<noteq> None) (classified e repo))"
    by (simp add: scan_files_sum classified_def)
  have look: "map_of ?counts l = (if ?n l = 0 then None else Some (?n l))" for l
    by (simp add: scan_files_map_of classified_def)
  have dist: "distinct (map fst ?counts)"
    by (rule scan_files_distinct) simp
  have zero: "total_files d = 0 \<longrightarrow> confidence d = 0"
    by (simp add: d calculate_confidence_def Let_def)
  have pos: "0 < count_list (classified e repo) (Some (primary_language d)) \<and>
       (\<forall>l. ?n l \<le> ?n (primary_language d)) \<and>
       confidence d = true_div e (int (?n (primary_language d))) (int (total_files d))"
    if t: "0 < total_files d"
  proof -
    have ne: "?counts \<noteq> []" using t d(2) by auto
    obtain c where c: "(get_primary_language ?counts, c) \<in> set ?counts"
      "\<forall>y \<in> set ?counts. snd y \<le> c" "max_list (map snd ?counts) = c"
      using primary_language_greatest [OF ne] by blast
    have "map_of ?counts (primary_language d) = Some c"
      using c(1) dist d(1) by simp
    then have nc: "?n (primary_language d) = c" "?n (primary_language d) \<noteq> 0"
      using look [of "primary_language d"] by (auto split: if_splits)
    have le: "?n l \<le> c" for l
    proof (cases "?n l = 0")
      case True
      then show ?thesis by simp
    next
      case False
      then have "map_of ?counts l = Some (?n l)" using look [of l] by simp
      then have "(l, ?n l) \<in> set ?counts" by (rule map_of_SomeD)
      then show ?thesis using c(2) by fastforce
    qed
    have ts: "sum_list (map snd ?counts) \<noteq> 0" using t unfolding d(2) by arith
    have "calculate_confidence e ?counts =
          true_div e (int (max_list (map snd ?counts))) (int (sum_list (map snd ?counts)))"
      unfolding calculate_confidence_def Let_def by (simp only: ne ts if_False)
    then have "confidence d = true_div e (int c) (int (total_files d))"
      using d(2,3) c(3) by simp
    then show ?thesis using nc le by simp
  qed
  show ?thesis using d(2) total zero pos by simp
qed

theorem language_aggregation_witness:
  "detect_languages_in_repo env0 ''/tmp/repo'' =
     Inr \<lparr>primary_language = ''python'', detected_languages = {''javascript'', ''python''},
           file_counts = [(''python'', 2), (''javascript'', 1)], total_files = 3,
           confidence = 6004799503160661 / 9007199254740992\<rparr> \<and>
   true_div env0 2 3 = 6004799503160661 / 9007199254740992 \<and>
   classified env0 ''/tmp/repo'' = [Some ''python'', Some ''python'', None, Some ''javascript''] \<and>
   detect_languages_in_repo (env0\<lparr>rglob := \<lambda>pat. []\<rparr>) ''/tmp/repo'' =
     Inr \<lparr>primary_language = ''unknown'', detected_languages = {},
           file_counts = [], total_files = 0, confidence = 0\<rparr>"
proof -
  have h1: "detect_languages_in_repo env0 ''/tmp/repo'' =
     Inr \<lparr>primary_language = ''python'', detected_languages = {''javascript'', ''python''},
           file_counts = [(''python'', 2), (''javascript'', 1)], total_files = 3,
           confidence = 6004799503160661 / 9007199254740992\<rparr>"
    by (simp add: detector_defs env0_def Let_def)
  have h2: "detect_languages_in_repo (env0\<lparr>rglob := \<lambda>pat. []\<rparr>) ''/tmp/repo'' =
     Inr \<lparr>primary_language = ''unknown'', detected_languages = {},
           file_counts = [], total_files = 0, confidence = 0\<rparr>"
    by (simp add: detector_defs env0_def Let_def)
  have c: "classified env0 ''/tmp/repo'' = [Some ''python'', Some ''python'', None, Some ''javascript'']"
    by (simp add: detector_defs env0_def Let_def)
  show ?thesis
    using language_aggregation [OF h1] language_aggregation [OF h2] h1 h2 c
    by (simp add: env0_def)
qed

section \<open>What every parse of a file returns\<close>

text \<open>
  Whatever strategy handles a file, every record it returns is stored under the id formed
  from the file's path and the record's own name, and every relationship it returns joins
  two keys of the mapping: a \<open>contains\<close> fact is only appended for a parent id that was
  stored before its body is walked.
\<close>

lemma keys_update: "set (keys (AList.update k v d)) = insert k (set (keys d))"
  using dom_update [of k v d] by (simp add: keys_def)

lemma extends_refl: "extends st st"
  by (simp add: extends_def)

lemma extends_trans: "extends a b \<Longrightarrow> extends b c \<Longrightarrow> extends a c"
  by (auto simp: extends_def)

lemma parent_known_mono: "parent_known par st \<Longrightarrow> extends st st' \<Longrightarrow> parent_known par st'"
  by (auto simp: parent_known_def extends_def)

lemma set_update_cases: "kv \<in> set (AList.update k v al) \<Longrightarrow> kv = (k, v) \<or> kv \<in> set al"
  by (induction al) (auto split: if_splits)

lemma ids_named_update:
  "ids_named fp els \<Longrightarrow> file_path el = fp \<Longrightarrow> k = element_id fp el \<Longrightarrow>
   ids_named fp (AList.update k el els)"
  unfolding ids_named_def using set_update_cases [of _ k el els] by fastforce

lemma element_id_node:
  "ty \<noteq> ''import'' \<Longrightarrow> element_id fp (node_element nm ty fp node par) = fp @ '':'' @ nm"
  "element_id fp (node_element nm ''import'' fp node par) = fp @ '':import:'' @ nm"
  "file_path (node_element nm ty fp node par) = fp"
  by (simp_all add: element_id_def node_element_def)

lemma record_declaration_ok:
  assumes "wf_state fp st" and "parent_known par st" and "ty \<noteq> ''import''"
  shows "wf_state fp (record_declaration nm ty fp node par st) \<and>
         extends st (record_declaration nm ty fp node par st) \<and>
         fp @ '':'' @ nm \<in> set (keys (fst (record_declaration nm ty fp node par st)))"
proof -
  let ?els = "AList.update (fp @ '':'' @ nm) (node_element nm ty fp node par) (fst st)"
  have n: "ids_named fp ?els"
    using assms(1,3) by (intro ids_named_update) (simp_all add: wf_state_def element_id_node)
  have f: "fst (record_declaration nm ty fp node par st) = ?els"
    by (simp add: record_declaration_def Let_def)
  have "rels_closed (record_declaration nm ty fp node par st) \<and>
        keys_qualified fp ?els \<and> extends st (record_declaration nm ty fp node par st) \<and>
        fp @ '':'' @ nm \<in> set (keys ?els)"
    using assms(1,2)
    by (auto simp: wf_state_def parent_known_def extends_def record_declaration_def Let_def
        rels_closed_def keys_qualified_def keys_update)
  then show ?thesis using n f by (simp add: wf_state_def)
qed

lemma import_ok:
  assumes "wf_state fp st"
  shows "wf_state fp (AList.update (fp @ '':import:'' @ m) (node_element m ''import'' fp node None) (fst st), snd st) \<and>
         extends st (AList.update (fp @ '':import:'' @ m) (node_element m ''import'' fp node None) (fst st), snd st)"
proof -
  let ?els = "AList.update (fp @ '':import:'' @ m) (node_element m ''import'' fp node None) (fst st)"
  have n: "ids_named fp ?els"
    using assms by (intro ids_named_update) (simp_all add: wf_state_def element_id_node)
  have "rels_closed (?els, snd st) \<and> keys_qualified fp ?els \<and> extends st (?els, snd st)"
    using assms
    by (auto simp: wf_state_def extends_def rels_closed_def keys_qualified_def keys_update)
  then show ?thesis using n by (simp add: wf_state_def)
qed

lemma py_declare_ok:
  assumes "wf_state fp st" and "parent_known par st"
  shows "wf_state fp (py_declare fp content node par st) \<and>
         extends st (py_declare fp content node par st)"
  using record_declaration_ok [OF assms, of "''function''"] record_declaration_ok [OF assms, of "''class''"]
    import_ok [OF assms(1)] assms(1)
  by (auto simp: py_declare_def find_function_calls_def extends_refl split: option.splits)

lemma py_class_scope_known:
  assumes "wf_state fp st" and "parent_known par st"
    and "py_class_scope fp content node = Some eid"
  shows "parent_known (Some eid) (py_declare fp content node par st)"
  using record_declaration_ok [OF assms(1,2), of "''class''"] assms(3)
  by (auto simp: py_class_scope_def py_declare_def parent_known_def
      split: option.splits if_splits)



lemma py_traverse_ok:
  "wf_state fp st \<longrightarrow> parent_known par st \<longrightarrow>
     wf_state fp (py_traverse_node fp content n par st) \<and>
     extends st (py_traverse_node fp content n par st)"
  "wf_state fp st \<longrightarrow> parent_known par st \<longrightarrow>
     wf_state fp (py_traverse_children fp content cs par st) \<and>
     extends st (py_traverse_children fp content cs par st)"
  "wf_state fp st \<longrightarrow> parent_known par st \<longrightarrow>
     wf_state fp (py_traverse_blocks fp content blks par st) \<and>
     extends st (py_traverse_blocks fp content blks par st)"
proof (induction fp content n par st and fp content cs par st and fp content blks par st
    rule: py_traverse_node_py_traverse_children_py_traverse_blocks.induct)
  case (1 fp content ty sp ep sb eb cs par st)
  let ?node = "Node ty sp ep sb eb cs"
  let ?st1 = "py_declare fp content ?node par st"
  show ?case
  proof (intro impI)
    assume wf: "wf_state fp st" and pk: "parent_known par st"
    have d: "wf_state fp ?st1" "extends st ?st1"
      using py_declare_ok [OF wf pk] by auto
    show "wf_state fp (py_traverse_node fp content ?node par st) \<and>
          extends st (py_traverse_node fp content ?node par st)"
    proof (cases "py_class_scope fp content ?node")
      case None
      have pk1: "parent_known par ?st1" using parent_known_mono [OF pk d(2)] .
      have "wf_state fp (py_traverse_children fp content cs par ?st1) \<and>
            extends ?st1 (py_traverse_children fp content cs par ?st1)"
        using "1.IH"(2) d(1) pk1 unfolding None by simp
      then have "wf_state fp (py_traverse_children fp content cs par ?st1) \<and>
            extends st (py_traverse_children fp content cs par ?st1)"
        using extends_trans [OF d(2)] by blast
      then show ?thesis
        by (simp only: py_traverse_node.simps None option.case)
    next
      case (Some eid)
      let ?st2 = "py_traverse_blocks fp content cs (Some eid) ?st1"
      have k: "parent_known (Some eid) ?st1"
        using py_class_scope_known [OF wf pk Some] .
      have b: "wf_state fp ?st2" "extends ?st1 ?st2"
        using "1.IH"(1) [OF Some] d(1) k by auto
      have e2: "extends st ?st2" using extends_trans [OF d(2) b(2)] .
      have pk2: "parent_known par ?st2" using parent_known_mono [OF pk e2] .
      have "wf_state fp (py_traverse_children fp content cs par ?st2) \<and>
            extends ?st2 (py_traverse_children fp content cs par ?st2)"
        using "1.IH"(2) b(1) pk2 unfolding Some by simp
      then have "wf_state fp (py_traverse_children fp content cs par ?st2) \<and>
            extends st (py_traverse_children fp content cs par ?st2)"
        using extends_trans [OF e2] by blast
      then show ?thesis
        by (simp only: py_traverse_node.simps Some option.case)
    qed
  qed
next
  case (2 fp content par st)
  show ?case by (simp add: extends_refl)
next
  case (3 fp content child rest par st)
  show ?case
  proof (intro impI)
    assume wf: "wf_state fp st" and pk: "parent_known par st"
    let ?st1 = "py_traverse_node fp content child par st"
    have a: "wf_state fp ?st1" "extends st ?st1" using 3(1) wf pk by blast+
    have pk1: "parent_known par ?st1" using parent_known_mono [OF pk a(2)] .
    have "wf_state fp (py_traverse_children fp content rest par ?st1) \<and>
          extends ?st1 (py_traverse_children fp content rest par ?st1)"
      using 3(2) a(1) pk1 by blast
    then have "wf_state fp (py_traverse_children fp content rest par ?st1) \<and>
          extends st (py_traverse_children fp content rest par ?st1)"
      using extends_trans [OF a(2)] by blast
    then show "wf_state fp (py_traverse_children fp content (child # rest) par st) \<and>
          extends st (py_traverse_children fp content (child # rest) par st)"
      by (simp only: py_traverse_children.simps)
  qed
next
  case (4 fp content par st)
  show ?case by (simp add: extends_refl)
next
  case (5 fp content ty sp ep sb eb gcs rest par st)
  show ?case
  proof (intro impI)
    assume wf: "wf_state fp st" and pk: "parent_known par st"
    let ?st1 = "if ty = ''block'' then py_traverse_children fp content gcs par st else st"
    have a: "wf_state fp ?st1" "extends st ?st1"
      using 5(1) wf pk by (auto simp: extends_refl)
    have pk1: "parent_known par ?st1" using parent_known_mono [OF pk a(2)] .
    have "wf_state fp (py_traverse_blocks fp content rest par ?st1) \<and>
          extends ?st1 (py_traverse_blocks fp content rest par ?st1)"
      using 5(2) a(1) pk1 by blast
    then have "wf_state fp (py_traverse_blocks fp content rest par ?st1) \<and>
          extends st (py_traverse_blocks fp content rest par ?st1)"
      using extends_trans [OF a(2)] by blast
    then show "wf_state fp (py_traverse_blocks fp content (Node ty sp ep sb eb gcs # rest) par st) \<and>
          extends st (py_traverse_blocks fp content (Node ty sp ep sb eb gcs # rest) par st)"
      by (simp only: py_traverse_blocks.simps)
  qed
qed

lemma java_declare_ok:
  assumes "wf_state fp st" and "parent_known par st"
  shows "wf_state fp (java_declare fp content node par st) \<and>
         extends st (java_declare fp content node par st)"
  using record_declaration_ok [OF assms, of "''function''"]
    record_declaration_ok [OF assms, of "''class''"] assms(1)
  by (auto simp: java_declare_def extends_refl split: option.splits)

lemma java_class_scope_known:
  assumes "wf_state fp st" and "parent_known par st"
    and "java_class_scope fp content node = Some eid"
  shows "parent_known (Some eid) (java_declare fp content node par st)"
  using record_declaration_ok [OF assms(1,2), of "''class''"] assms(3)
  by (auto simp: java_class_scope_def java_declare_def parent_known_def
      split: option.splits if_splits)




lemma java_traverse_ok:
  "wf_state fp st \<longrightarrow> parent_known par st \<longrightarrow>
     wf_state fp (java_traverse_node fp content n par st) \<and>
     extends st (java_traverse_node fp content n par st)"
  "wf_state fp st \<longrightarrow> parent_known par st \<longrightarrow>
     wf_state fp (java_traverse_children fp content cs par st) \<and>
     extends st (java_traverse_children fp content cs par st)"
  "wf_state fp st \<longrightarrow> parent_known par st \<longrightarrow>
     wf_state fp (java_traverse_bodies fp content blks par st) \<and>
     extends st (java_traverse_bodies fp content blks par st)"
proof (induction fp content n par st and fp content cs par st and fp content blks par st
    rule: java_traverse_node_java_traverse_children_java_traverse_bodies.induct)
  case (1 fp content ty sp ep sb eb cs par st)
  let ?node = "Node ty sp ep sb eb cs"
  let ?st1 = "java_declare fp content ?node par st"
  show ?case
  proof (intro impI)
    assume wf: "wf_state fp st" and pk: "parent_known par st"
    have d: "wf_state fp ?st1" "extends st ?st1"
      using java_declare_ok [OF wf pk] by auto
    show "wf_state fp (java_traverse_node fp content ?node par st) \<and>
          extends st (java_traverse_node fp content ?node par st)"
    proof (cases "java_class_scope fp content ?node")
      case None
      have pk1: "parent_known par ?st1" using parent_known_mono [OF pk d(2)] .
      have "wf_state fp (java_traverse_children fp content cs par ?st1) \<and>
            extends ?st1 (java_traverse_children fp content cs par ?st1)"
        using "1.IH"(2) d(1) pk1 unfolding None by simp
      then have "wf_state fp (java_traverse_children fp content cs par ?st1) \<and>
            extends st (java_traverse_children fp content cs par ?st1)"
        using extends_trans [OF d(2)] by blast
      then show ?thesis
        by (simp only: java_traverse_node.simps None option.case)
    next
      case (Some eid)
      let ?st2 = "java_traverse_bodies fp content cs (Some eid) ?st1"
      have k: "parent_known (Some eid) ?st1"
        using java_class_scope_known [OF wf pk Some] .
      have b: "wf_state fp ?st2" "extends ?st1 ?st2"
        using "1.IH"(1) [OF Some] d(1) k by auto
      have e2: "extends st ?st2" using extends_trans [OF d(2) b(2)] .
      have pk2: "parent_known par ?st2" using parent_known_mono [OF pk e2] .
      have "wf_state fp (java_traverse_children fp content cs par ?st2) \<and>
            extends ?st2 (java_traverse_children fp content cs par ?st2)"
        using "1.IH"(2) b(1) pk2 unfolding Some by simp
      then have "wf_state fp (java_traverse_children fp content cs par ?st2) \<and>
            extends st (java_traverse_children fp content cs par ?st2)"
        using extends_trans [OF e2] by blast
      then show ?thesis
        by (simp only: java_traverse_node.simps Some option.case)
    qed
  qed
next
  case (2 fp content par st)
  show ?case by (simp add: extends_refl)
next
  case (3 fp content child rest par st)
  show ?case
  proof (intro impI)
    assume wf: "wf_state fp st" and pk: "parent_known par st"
    let ?st1 = "java_traverse_node fp content child par st"
    have a: "wf_state fp ?st1" "extends st ?st1" using 3(1) wf pk by blast+
    have pk1: "parent_known par ?st1" using parent_known_mono [OF pk a(2)] .
    have "wf_state fp (java_traverse_children fp content rest par ?st1) \<and>
          extends ?st1 (java_traverse_children fp content rest par ?st1)"
      using 3(2) a(1) pk1 by blast
    then have "wf_state fp (java_traverse_children fp content rest par ?st1) \<and>
          extends st (java_traverse_children fp content rest par ?st1)"
      using extends_trans [OF a(2)] by blast
    then show "wf_state fp (java_traverse_children fp content (child # rest) par st) \<and>
          extends st (java_traverse_children fp content (child # rest) par st)"
      by (simp only: java_traverse_children.simps)
  qed
next
  case (4 fp content par st)
  show ?case by (simp add: extends_refl)
next
  case (5 fp content ty sp ep sb eb gcs rest par st)
  show ?case
  proof (intro impI)
    assume wf: "wf_state fp st" and pk: "parent_known par st"
    let ?st1 = "if ty = ''class_body'' then java_traverse_children fp content gcs par st else st"
    have a: "wf_state fp ?st1" "extends st ?st1"
      using 5(1) wf pk by (auto simp: extends_refl)
    have pk1: "parent_known par ?st1" using parent_known_mono [OF pk a(2)] .
    have "wf_state fp (java_traverse_bodies fp content rest par ?st1) \<and>
          extends ?st1 (java_traverse_bodies fp content rest par ?st1)"
      using 5(2) a(1) pk1 by blast
    then have "wf_state fp (java_traverse_bodies fp content rest par ?st1) \<and>
          extends st (java_traverse_bodies fp content rest par ?st1)"
      using extends_trans [OF a(2)] by blast
    then show "wf_state fp (java_traverse_bodies fp content (Node ty sp ep sb eb gcs # rest) par st) \<and>
          extends st (java_traverse_bodies fp content (Node ty sp ep sb eb gcs # rest) par st)"
      by (simp only: java_traverse_bodies.simps)
  qed
qed

lemma js_declare_ok:
  assumes "wf_state fp st" and "parent_known par st"
  shows "wf_state fp (js_declare fp content node par st) \<and>
         extends st (js_declare fp content node par st)"
  using record_declaration_ok [OF assms, of "''function''"]
    record_declaration_ok [OF assms, of "''class''"] assms(1)
  by (auto simp: js_declare_def extends_refl split: option.splits)

lemma js_traverse_ok:
  "wf_state fp st \<longrightarrow> parent_known par st \<longrightarrow>
     wf_state fp (js_traverse_node fp content n par st) \<and>
     extends st (js_traverse_node fp content n par st)"
  "wf_state fp st \<longrightarrow> parent_known par st \<longrightarrow>
     wf_state fp (js_traverse_children fp content cs par st) \<and>
     extends st (js_traverse_children fp content cs par st)"
proof (induction fp content n par st and fp content cs par st
    rule: js_traverse_node_js_traverse_children.induct)
  case (1 fp content ty sp ep sb eb cs par st)
  let ?node = "Node ty sp ep sb eb cs"
  let ?st1 = "js_declare fp content ?node par st"
  show ?case
  proof (intro impI)
    assume wf: "wf_state fp st" and pk: "parent_known par st"
    have d: "wf_state fp ?st1" "extends st ?st1"
      using js_declare_ok [OF wf pk] by auto
    have pk1: "parent_known par ?st1" using parent_known_mono [OF pk d(2)] .
    have "wf_state fp (js_traverse_children fp content cs par ?st1) \<and>
          extends ?st1 (js_traverse_children fp content cs par ?st1)"
      using "1.IH" d(1) pk1 by blast
    then have "wf_state fp (js_traverse_children fp content cs par ?st1) \<and>
          extends st (js_traverse_children fp content cs par ?st1)"
      using extends_trans [OF d(2)] by blast
    then show "wf_state fp (js_traverse_node fp content ?node par st) \<and>
          extends st (js_traverse_node fp content ?node par st)"
      by (simp only: js_traverse_node.simps)
  qed
next
  case (2 fp content par st)
  show ?case by (simp add: extends_refl)
next
  case (3 fp content child rest par st)
  show ?case
  proof (intro impI)
    assume wf: "wf_state fp st" and pk: "parent_known par st"
    let ?st1 = "js_traverse_node fp content child par st"
    have a: "wf_state fp ?st1" "extends st ?st1" using 3(1) wf pk by blast+
    have pk1: "parent_known par ?st1" using parent_known_mono [OF pk a(2)] .
    have "wf_state fp (js_traverse_children fp content rest par ?st1) \<and>
          extends ?st1 (js_traverse_children fp content rest par ?st1)"
      using 3(2) a(1) pk1 by blast
    then have "wf_state fp (js_traverse_children fp content rest par ?st1) \<and>
          extends st (js_traverse_children fp content rest par ?st1)"
      using extends_trans [OF a(2)] by blast
    then show "wf_state fp (js_traverse_children fp content (child # rest) par st) \<and>
          extends st (js_traverse_children fp content (child # rest) par st)"
      by (simp only: js_traverse_children.simps)
  qed
qed

lemma wf_state_empty: "wf_state fp ([], [])"
  by (simp add: wf_state_def rels_closed_def keys_qualified_def ids_named_def keys_def)

lemma parent_known_None: "parent_known None st"
  by (simp add: parent_known_def truthy_def)

lemma parse_python_ast_wf: "wf_state fp (parse_python_ast root_node fp content)"
  using py_traverse_ok(1) [of fp "([], [])" None content root_node]
  by (simp add: parse_python_ast_def wf_state_empty parent_known_None)

lemma parse_javascript_ast_wf: "wf_state fp (parse_javascript_ast root_node fp content)"
  using js_traverse_ok(1) [of fp "([], [])" None content root_node]
  by (simp add: parse_javascript_ast_def wf_state_empty parent_known_None)

lemma parse_java_ast_wf: "wf_state fp (parse_java_ast root_node fp content)"
  using java_traverse_ok(1) [of fp "([], [])" None content root_node]
  by (simp add: parse_java_ast_def wf_state_empty parent_known_None)

lemma keys_qualified_update:
  "keys_qualified fp els \<Longrightarrow> keys_qualified fp (AList.update (fp @ '':'' @ nm) v els)"
  by (auto simp: keys_qualified_def keys_update)

lemma element_id_regex:
  "ty \<noteq> ''import'' \<Longrightarrow> element_id fp (regex_element ty fp content m) = fp @ '':'' @ group1 m"
  "file_path (regex_element ty fp content m) = fp"
  by (simp_all add: element_id_def regex_element_def Let_def)

lemma regex_collect_qualified:
  "ty \<noteq> ''import'' \<Longrightarrow> keys_qualified fp els \<and> ids_named fp els \<Longrightarrow>
   keys_qualified fp (regex_collect ty fp content ms els) \<and>
   ids_named fp (regex_collect ty fp content ms els)"
proof (induction ms arbitrary: els)
  case Nil
  then show ?case by simp
next
  case (Cons m ms)
  let ?els = "AList.update (fp @ '':'' @ group1 m) (regex_element ty fp content m) els"
  have "keys_qualified fp ?els"
    using Cons.prems(2) keys_qualified_update [of fp els "group1 m"] by simp
  moreover have "ids_named fp ?els"
    using Cons.prems by (intro ids_named_update) (simp_all add: element_id_regex)
  ultimately show ?case using Cons.IH [OF Cons.prems(1), of ?els] by simp
qed

lemma keys_qualified_Nil: "keys_qualified fp [] \<and> ids_named fp []"
  by (simp add: keys_qualified_def ids_named_def keys_def)

lemma wf_state_no_rels: "keys_qualified fp els \<and> ids_named fp els \<Longrightarrow> wf_state fp (els, [])"
  by (simp add: wf_state_def rels_closed_def)

lemma js_functions_qualified:
  "keys_qualified fp els \<and> ids_named fp els \<Longrightarrow>
   keys_qualified fp
     (fold (\<lambda>pattern els. regex_collect ''function'' fp content (finditer e pattern content) els) ps els) \<and>
   ids_named fp
     (fold (\<lambda>pattern els. regex_collect ''function'' fp content (finditer e pattern content) els) ps els)"
proof (induction ps arbitrary: els)
  case Nil
  then show ?case by simp
next
  case (Cons p ps)
  have "keys_qualified fp (regex_collect ''function'' fp content (finditer e p content) els) \<and>
        ids_named fp (regex_collect ''function'' fp content (finditer e p content) els)"
    using Cons.prems by (intro regex_collect_qualified) simp_all
  then show ?case using Cons.IH by simp
qed

lemma regex_parse_python_wf: "wf_state fp (regex_parse_python e content fp)"
  unfolding regex_parse_python_def Let_def
  by (intro wf_state_no_rels regex_collect_qualified keys_qualified_Nil) simp_all

lemma regex_parse_java_wf: "wf_state fp (regex_parse_java e content fp)"
  unfolding regex_parse_java_def Let_def
  by (intro wf_state_no_rels regex_collect_qualified keys_qualified_Nil) simp_all

lemma regex_parse_javascript_wf: "wf_state fp (regex_parse_javascript e content fp)"
  unfolding regex_parse_javascript_def Let_def
  by (intro wf_state_no_rels regex_collect_qualified js_functions_qualified keys_qualified_Nil)
    simp_all

lemma parse_with_regex_wf: "wf_state fp (parse_with_regex e content fp language)"
  by (simp add: parse_with_regex_def regex_parse_python_wf regex_parse_javascript_wf
      regex_parse_java_wf wf_state_empty)

lemma parse_with_treesitter_wf: "wf_state fp (parse_with_treesitter self e content fp language)"
  by (simp add: parse_with_treesitter_def parse_with_regex_wf parse_python_ast_wf
      parse_javascript_ast_wf parse_java_ast_wf wf_state_empty split: option.split sum.split)

lemma analyze_file_wf: "wf_state fp (analyze_file self e fp language)"
  by (simp add: analyze_file_def parse_with_regex_wf parse_with_treesitter_wf wf_state_empty
      split: sum.split)

section \<open>Assembling the graph\<close>

lemma keys_Nil: "keys [] = []"
  by (simp add: keys_def)

lemma keys_Cons: "keys (kv # d) = fst kv # keys d"
  by (simp add: keys_def)

lemma keys_dict_update: "set (keys (dict_update d e)) = set (keys d) \<union> set (keys e)"
proof (induction e arbitrary: d)
  case Nil
  then show ?case by (simp add: dict_update_def keys_Nil)
next
  case (Cons kv e)
  obtain k v where kv: "kv = (k, v)" by (cases kv)
  have "dict_update d (kv # e) = dict_update (AList.update k v d) e"
    by (simp add: dict_update_def kv)
  then show ?case using Cons [of "AList.update k v d"] by (auto simp: keys_update kv keys_Cons)
qed

lemma rels_closed_merge:
  "rels_closed acc \<Longrightarrow> rels_closed r \<Longrightarrow> rels_closed (merge_file acc r)"
  by (auto simp: rels_closed_def merge_file_def keys_dict_update)

lemma analyze_file_closed: "rels_closed (analyze_file self e fp language)"
  using analyze_file_wf [of fp self e language] by (simp add: wf_state_def)

lemma set_dict_update: "set (dict_update d e) \<subseteq> set d \<union> set e"
proof (induction e arbitrary: d)
  case Nil
  then show ?case by (simp add: dict_update_def)
next
  case (Cons kv e)
  obtain k v where kv: "kv = (k, v)" by (cases kv)
  have "dict_update d (kv # e) = dict_update (AList.update k v d) e"
    by (simp add: dict_update_def kv)
  then show ?case
    using Cons [of "AList.update k v d"] set_update_cases [of _ k v d] by (auto simp: kv)
qed

lemma analyze_file_in_eq:
  "analyze_file_in self e fpath language repo_root = Inr r \<Longrightarrow>
   r = analyze_file self e (fs_name repo_root fpath) language"
  by (auto simp: analyze_file_in_def analyze_file_def fs_name_def Let_def split: sum.splits)

lemma analyze_entry_points_fold:
  "analyze_entry_points self e repo_path language eps acc = Inr acc' \<Longrightarrow>
   acc' = fold (\<lambda>p acc. merge_file acc (analyze_file self e p language))
     (map (\<lambda>entry_point. fs_name repo_path (joinpath repo_path entry_point))
        (filter (\<lambda>entry_point. path_exists e (fs_name repo_path (joinpath repo_path entry_point)) = Inr True)
           eps)) acc"
proof (induction eps arbitrary: acc)
  case Nil
  then show ?case by simp
next
  case (Cons ep eps)
  let ?p = "fs_name repo_path (joinpath repo_path ep)"
  from Cons.prems obtain ex where ex: "path_exists e ?p = Inr ex"
    by (auto simp: Let_def split: sum.splits)
  show ?case
  proof (cases ex)
    case True
    from Cons.prems ex True obtain r where
      r: "analyze_file_in self e (joinpath repo_path ep) language repo_path = Inr r"
      and rest: "analyze_entry_points self e repo_path language eps (merge_file acc r) = Inr acc'"
      by (auto simp: Let_def split: sum.splits)
    have "r = analyze_file self e ?p language" using analyze_file_in_eq [OF r] .
    then show ?thesis using Cons.IH [OF rest] ex True by simp
  next
    case False
    then have "analyze_entry_points self e repo_path language eps acc = Inr acc'"
      using Cons.prems ex by (simp add: Let_def)
    then show ?thesis using Cons.IH ex False by simp
  qed
qed

lemma analyze_remaining_fold:
  "analyze_remaining self e language eps files acc =
   fold (\<lambda>p acc. merge_file acc (analyze_file self e p language))
     (filter (\<lambda>fp. fp \<notin> set eps) files) acc"
  by (induction files arbitrary: acc) simp_all

lemma analyze_codebase_fold:
  assumes "analyze_codebase self e repo_path language eps = Inr ccg"
  shows "(elements ccg, relationships ccg) =
     fold (\<lambda>p acc. merge_file acc (analyze_file self e p language))
       (analyzed_files e repo_path language eps) ([], [])"
    and "graph ccg = build_graph (elements ccg) (relationships ccg)"
proof -
  from assms obtain acc where
    a: "analyze_entry_points self e repo_path language eps ([], []) = Inr acc"
    and c: "ccg = (let acc = analyze_remaining self e language eps
                       (CodeAnalyzer_get_code_files e language) acc
                   in \<lparr>elements = fst acc, relationships = snd acc,
                       graph = build_graph (fst acc) (snd acc)\<rparr>)"
    by (auto simp: analyze_codebase_def Let_def split: sum.splits)
  show "(elements ccg, relationships ccg) =
     fold (\<lambda>p acc. merge_file acc (analyze_file self e p language))
       (analyzed_files e repo_path language eps) ([], [])"
    using analyze_entry_points_fold [OF a]
    by (simp add: c Let_def analyzed_files_def analyze_remaining_fold)
  show "graph ccg = build_graph (elements ccg) (relationships ccg)"
    by (simp add: c Let_def)
qed

lemma fold_closed:
  "rels_closed acc \<Longrightarrow>
   rels_closed (fold (\<lambda>p acc. merge_file acc (analyze_file self e p language)) ps acc)"
  by (induction ps arbitrary: acc) (simp_all add: rels_closed_merge analyze_file_closed)

lemma fold_relationships:
  "snd (fold (\<lambda>p acc. merge_file acc (analyze_file self e p language)) ps acc) =
   snd acc @ concat (map (\<lambda>p. snd (analyze_file self e p language)) ps)"
  by (induction ps arbitrary: acc) (simp_all add: merge_file_def)

lemma fold_keys:
  "set (keys (fst (fold (\<lambda>p acc. merge_file acc (analyze_file self e p language)) ps acc))) =
   set (keys (fst acc)) \<union> (\<Union>p \<in> set ps. set (keys (fst (analyze_file self e p language))))"
  by (induction ps arbitrary: acc) (auto simp: merge_file_def keys_dict_update)

lemma keys_ensure_node: "set (keys (ensure_node n ns)) = insert n (set (keys ns))"
  by (auto simp: ensure_node_def keys_def)

lemma add_nodes_keys:
  "set (keys (nodes (fold (\<lambda>(element_id, element) g. add_node element_id element g) els g))) =
     set (keys (nodes g)) \<union> set (keys els) \<and>
   edges (fold (\<lambda>(element_id, element) g. add_node element_id element g) els g) = edges g"
proof (induction els arbitrary: g)
  case Nil
  then show ?case by (simp add: keys_Nil)
next
  case (Cons kv els)
  obtain k v where kv: "kv = (k, v)" by (cases kv)
  have n: "set (keys (nodes (add_node k v g))) = insert k (set (keys (nodes g)))"
    "edges (add_node k v g) = edges g"
    by (simp_all add: add_node_def keys_update)
  show ?case
    using Cons [of "add_node k v g"] by (auto simp: kv n keys_Cons)
qed

lemma add_edges_keys:
  "set (keys (nodes (fold (\<lambda>(from_id, to_id, rel_type) g. add_edge from_id to_id rel_type g) rels g))) =
     set (keys (nodes g)) \<union> fst ` set rels \<union> (\<lambda>r. fst (snd r)) ` set rels \<and>
   set (keys (edges (fold (\<lambda>(from_id, to_id, rel_type) g. add_edge from_id to_id rel_type g) rels g))) =
     set (keys (edges g)) \<union> (\<lambda>r. (fst r, fst (snd r))) ` set rels"
proof (induction rels arbitrary: g)
  case Nil
  then show ?case by simp
next
  case (Cons r rels)
  obtain a b k where r: "r = (a, b, k)" by (cases r)
  have n: "set (keys (nodes (add_edge a b k g))) = insert a (insert b (set (keys (nodes g))))"
    by (auto simp: add_edge_def keys_ensure_node)
  have ed: "set (keys (edges (add_edge a b k g))) = insert (a, b) (set (keys (edges g)))"
    by (simp add: add_edge_def keys_update)
  show ?case
    using Cons [of "add_edge a b k g"] by (simp add: r n ed) blast
qed

lemma build_graph_keys:
  "set (keys (nodes (build_graph els rels))) =
     set (keys els) \<union> fst ` set rels \<union> (\<lambda>r. fst (snd r)) ` set rels \<and>
   set (keys (edges (build_graph els rels))) = (\<lambda>r. (fst r, fst (snd r))) ` set rels"
  using add_edges_keys [of rels "fold (\<lambda>(element_id, element) g. add_node element_id element g) els empty_graph"]
    add_nodes_keys [of els empty_graph]
  by (simp add: build_graph_def empty_graph_def keys_Nil)

lemmas analysis_defs =
  analyze_codebase_def CodeAnalyzer_get_code_files_def extensions_def analyze_file_def
  analyze_file_in_def joinpath_def relative_to_def is_absolute_def str_path_def fs_name_def
  parts_def read_text_def parse_with_treesitter_def parse_with_regex_def regex_parse_python_def
  parse_python_ast_def py_declare_def py_class_scope_def get_node_text_def
  get_import_name_def record_declaration_def find_function_calls_def node_element_def
  regex_element_def truthy_def slice_def merge_file_def dict_update_def build_graph_def
  add_node_def add_edge_def ensure_node_def empty_graph_def keys_def rfind_def
  py_func_pattern_def py_class_pattern_def analyzed_files_def

text \<open>
  C1. In every graph assembled by \<open>analyze_codebase\<close>, every edge of the graph view has
  both endpoints among the keys of the element mapping: a pair of ids of which one is not
  a key is not an edge, and the nodes of the view are exactly the keys. The flat list
  keeps every relationship the files gave, in order; each of them joins two keys, and the
  edges of the view are their endpoint pairs.
\<close>

theorem graph_edges_between_elements:
  assumes "analyze_codebase self e repo_path language eps = Inr ccg"
  shows "(\<forall>r \<in> set (relationships ccg).
      fst r \<in> set (keys (elements ccg)) \<and> fst (snd r) \<in> set (keys (elements ccg))) \<and>
   (\<forall>uv \<in> set (keys (edges (graph ccg))).
      fst uv \<in> set (keys (elements ccg)) \<and> snd uv \<in> set (keys (elements ccg))) \<and>
   (\<forall>a b. a \<notin> set (keys (elements ccg)) \<or> b \<notin> set (keys (elements ccg)) \<longrightarrow>
      (a, b) \<notin> set (keys (edges (graph ccg)))) \<and>
   set (keys (edges (graph ccg))) = (\<lambda>r. (fst r, fst (snd r))) ` set (relationships ccg) \<and>
   set (keys (nodes (graph ccg))) = set (keys (elements ccg)) \<and>
   relationships ccg =
     concat (map (\<lambda>p. snd (analyze_file self e p language))
       (analyzed_files e repo_path language eps))"
proof -
  let ?F = "\<lambda>p acc. merge_file acc (analyze_file self e p language)"
  let ?ps = "analyzed_files e repo_path language eps"
  have f: "(elements ccg, relationships ccg) = fold ?F ?ps ([], [])"
    and g: "graph ccg = build_graph (elements ccg) (relationships ccg)"
    using analyze_codebase_fold [OF assms] by auto
  have "rels_closed ([], [])" by (simp add: rels_closed_def)
  then have "rels_closed (fold ?F ?ps ([], []))" by (rule fold_closed)
  then have c: "\<forall>r \<in> set (relationships ccg).
      fst r \<in> set (keys (elements ccg)) \<and> fst (snd r) \<in> set (keys (elements ccg))"
    unfolding f [symmetric] by (simp add: rels_closed_def)
  have ek: "set (keys (edges (graph ccg))) = (\<lambda>r. (fst r, fst (snd r))) ` set (relationships ccg)"
    by (simp add: g build_graph_keys)
  have nk: "set (keys (nodes (graph ccg))) = set (keys (elements ccg))"
    using c by (auto simp: g build_graph_keys)
  have "relationships ccg = snd (fold ?F ?ps ([], []))"
    unfolding f [symmetric] by simp
  then have rl: "relationships ccg = concat (map (\<lambda>p. snd (analyze_file self e p language)) ?ps)"
    by (simp add: fold_relationships)
  have ee: "\<forall>uv \<in> set (keys (edges (graph ccg))).
      fst uv \<in> set (keys (elements ccg)) \<and> snd uv \<in> set (keys (elements ccg))"
    using c ek by auto
  then have ne: "\<forall>a b. a \<notin> set (keys (elements ccg)) \<or> b \<notin> set (keys (elements ccg)) \<longrightarrow>
      (a, b) \<notin> set (keys (edges (graph ccg)))"
    by fastforce
  show ?thesis using c ee ne ek nk rl by blast
qed

theorem graph_edges_between_elements_witness:
  "(\<exists>ccg. analyze_codebase analyzer_py env0 ''/repo'' ''python'' [''a.py''] = Inr ccg \<and>
     relationships ccg = [(''a.py:Foo'', ''a.py:bar'', ''contains'')] \<and>
     keys (elements ccg) = [''a.py:Foo'', ''a.py:bar'', ''bin.py:f''] \<and>
     edges (graph ccg) = [((''a.py:Foo'', ''a.py:bar''), ''contains'')] \<and>
     keys (nodes (graph ccg)) = [''a.py:Foo'', ''a.py:bar'', ''bin.py:f''] \<and>
     ''ghost'' \<notin> set (keys (elements ccg)) \<and>
     (''a.py:Foo'', ''ghost'') \<notin> set (keys (edges (graph ccg))))"
proof -
  obtain ccg where r: "analyze_codebase analyzer_py env0 ''/repo'' ''python'' [''a.py''] = Inr ccg"
    by (simp add: analysis_defs analyzer_py_def env0_def tree_a_def content_a_def content_bin_def Let_def)
  have v: "relationships ccg = [(''a.py:Foo'', ''a.py:bar'', ''contains'')] \<and>
     keys (elements ccg) = [''a.py:Foo'', ''a.py:bar'', ''bin.py:f''] \<and>
     edges (graph ccg) = [((''a.py:Foo'', ''a.py:bar''), ''contains'')] \<and>
     keys (nodes (graph ccg)) = [''a.py:Foo'', ''a.py:bar'', ''bin.py:f'']"
    using r
    by (auto simp: analysis_defs analyzer_py_def env0_def tree_a_def content_a_def content_bin_def Let_def)
  have "''ghost'' \<notin> set (keys (elements ccg))" using v by simp
  then show ?thesis
    using graph_edges_between_elements [OF r] r v by auto
qed

section \<open>Element ids\<close>

lemma qualified_path_unique:
  assumes "CHR '':'' \<notin> set fp" and "CHR '':'' \<notin> set fp'"
    and "prefix (fp @ '':'') k" and "prefix (fp' @ '':'') k"
  shows "fp = fp'"
proof -
  have t: "takeWhile (\<lambda>c. c \<noteq> CHR '':'') (p @ '':'' @ r) = p" if "CHR '':'' \<notin> set p" for p r
    using that by (induction p) auto
  from assms(3) obtain r where "k = fp @ '':'' @ r" by (auto simp: prefix_def)
  then have a: "takeWhile (\<lambda>c. c \<noteq> CHR '':'') k = fp" using t [OF assms(1)] by simp
  from assms(4) obtain r' where "k = fp' @ '':'' @ r'" by (auto simp: prefix_def)
  then have "takeWhile (\<lambda>c. c \<noteq> CHR '':'') k = fp'" using t [OF assms(2)] by simp
  then show ?thesis using a by simp
qed

text \<open>
  C2 (as amended). Every id assigned to an element of a file starts with the file's path
  and a colon; the rest is the element's simple name, or \<open>import:\<close> and the module name.
  Two different paths without a colon therefore never share an id, so a record of the
  element mapping is only ever overwritten by an element of the same path.
\<close>

lemma element_id_unique:
  assumes "CHR '':'' \<notin> set fp" and "CHR '':'' \<notin> set fp'"
    and "element_id fp el = element_id fp' el'"
  shows "fp = fp' \<and> ((type el = ''import'') = (type el' = ''import'') \<longrightarrow> name el = name el')"
proof -
  have p: "prefix (fp @ '':'') (element_id fp el)" "prefix (fp' @ '':'') (element_id fp' el')"
    by (simp_all add: element_id_def)
  have "fp = fp'"
    using qualified_path_unique [OF assms(1,2) p(1)] p(2) assms(3) by simp
  then show ?thesis using assms(3) by (auto simp: element_id_def split: if_splits)
qed

lemma fold_ids:
  "\<forall>kv \<in> set (fst acc). fst kv = element_id (file_path (snd kv)) (snd kv) \<Longrightarrow>
   \<forall>kv \<in> set (fst (fold (\<lambda>p acc. merge_file acc (analyze_file self e p language)) ps acc)).
     fst kv = element_id (file_path (snd kv)) (snd kv)"
proof (induction ps arbitrary: acc)
  case Nil
  then show ?case by simp
next
  case (Cons p ps)
  have "ids_named p (fst (analyze_file self e p language))"
    using analyze_file_wf [of p self e language] by (simp add: wf_state_def)
  then have "\<forall>kv \<in> set (fst (analyze_file self e p language)).
      fst kv = element_id (file_path (snd kv)) (snd kv)"
    by (auto simp: ids_named_def)
  then have "\<forall>kv \<in> set (fst (merge_file acc (analyze_file self e p language))).
      fst kv = element_id (file_path (snd kv)) (snd kv)"
    using Cons.prems set_dict_update [of "fst acc" "fst (analyze_file self e p language)"]
    by (auto simp: merge_file_def)
  then show ?case using Cons.IH by simp
qed

text \<open>
  C2 (as amended). Every record a file's analysis returns, and every record of an assembled
  element mapping, is stored under the id formed from its own file path and its own name:
  \<open>{file_path}:{name}\<close>, and \<open>{file_path}:import:{name}\<close> for an import. For paths
  without a colon, two elements have the same id only if they have the same file path
  and, both being imports or both not, the same name; so two different files never share
  an id.
\<close>

theorem ids_qualified_by_file:
  "keys_qualified fp (fst (analyze_file self e fp language)) \<and>
   ids_named fp (fst (analyze_file self e fp language)) \<and>
   (\<forall>ccg. analyze_codebase self e repo_path language eps = Inr ccg \<longrightarrow>
      (\<forall>kv \<in> set (elements ccg). fst kv = element_id (file_path (snd kv)) (snd kv))) \<and>
   (CHR '':'' \<notin> set fp \<longrightarrow> CHR '':'' \<notin> set fp' \<longrightarrow>
      (element_id fp el = element_id fp' el' \<longrightarrow>
         fp = fp' \<and> ((type el = ''import'') = (type el' = ''import'') \<longrightarrow> name el = name el')) \<and>
      (fp \<noteq> fp' \<longrightarrow>
         set (keys (fst (analyze_file self e fp language))) \<inter>
         set (keys (fst (analyze_file self e fp' language))) = {}))"
proof -
  have w: "keys_qualified p (fst (analyze_file self e p language)) \<and>
           ids_named p (fst (analyze_file self e p language))" for p
    using analyze_file_wf [of p self e language] by (simp add: wf_state_def)
  have m: "\<forall>kv \<in> set (elements ccg). fst kv = element_id (file_path (snd kv)) (snd kv)"
    if r: "analyze_codebase self e repo_path language eps = Inr ccg" for ccg
  proof -
    have "elements ccg = fst (fold (\<lambda>p acc. merge_file acc (analyze_file self e p language))
        (analyzed_files e repo_path language eps) ([], []))"
      using analyze_codebase_fold(1) [OF r, symmetric] by simp
    then show ?thesis
      using fold_ids [of "([], [])" self e language "analyzed_files e repo_path language eps"]
      by simp
  qed
  have d: "set (keys (fst (analyze_file self e fp language))) \<inter>
        set (keys (fst (analyze_file self e fp' language))) = {}"
    if c: "CHR '':'' \<notin> set fp" "CHR '':'' \<notin> set fp'" and ne: "fp \<noteq> fp'"
  proof (rule ccontr)
    assume "\<not> ?thesis"
    then obtain k where k: "k \<in> set (keys (fst (analyze_file self e fp language)))"
      "k \<in> set (keys (fst (analyze_file self e fp' language)))" by auto
    have "prefix (fp @ '':'') k" "prefix (fp' @ '':'') k"
      using w [of fp] w [of fp'] k by (auto simp: keys_qualified_def)
    then show False using qualified_path_unique [OF c] ne by simp
  qed
  show ?thesis using w [of fp] m d element_id_unique [of fp fp' el el'] by blast
qed

theorem ids_qualified_by_file_witness:
  "keys (fst (analyze_file analyzer_py env0 ''a.py'' ''python'')) = [''a.py:Foo'', ''a.py:bar''] \<and>
   keys (fst (analyze_file analyzer_py env0 ''bin.py'' ''python'')) = [''bin.py:f''] \<and>
   ids_named ''a.py'' (fst (analyze_file analyzer_py env0 ''a.py'' ''python'')) \<and>
   (\<exists>ccg. analyze_codebase analyzer_py env0 ''/repo'' ''python'' [''./a.py''] = Inr ccg \<and>
      keys (elements ccg) = [''a.py:Foo'', ''a.py:bar'', ''bin.py:f''] \<and>
      (\<forall>kv \<in> set (elements ccg). fst kv = element_id (file_path (snd kv)) (snd kv))) \<and>
   CHR '':'' \<notin> set ''a.py'' \<and> CHR '':'' \<notin> set ''bin.py'' \<and> ''a.py'' \<noteq> ''bin.py'' \<and>
   set (keys (fst (analyze_file analyzer_py env0 ''a.py'' ''python''))) \<inter>
   set (keys (fst (analyze_file analyzer_py env0 ''bin.py'' ''python''))) = {}"
proof -
  have a: "keys (fst (analyze_file analyzer_py env0 ''a.py'' ''python'')) = [''a.py:Foo'', ''a.py:bar'']"
    by (simp add: analysis_defs analyzer_py_def env0_def tree_a_def content_a_def content_bin_def Let_def)
  have b: "keys (fst (analyze_file analyzer_py env0 ''bin.py'' ''python'')) = [''bin.py:f'']"
    by (simp add: analysis_defs analyzer_py_def env0_def tree_a_def content_a_def content_bin_def Let_def)
  obtain ccg where r: "analyze_codebase analyzer_py env0 ''/repo'' ''python'' [''./a.py''] = Inr ccg"
    by (simp add: analysis_defs analyzer_py_def env0_def tree_a_def content_a_def content_bin_def Let_def)
  have k: "keys (elements ccg) = [''a.py:Foo'', ''a.py:bar'', ''bin.py:f'']"
    using r
    by (auto simp: analysis_defs analyzer_py_def env0_def tree_a_def content_a_def content_bin_def Let_def)
  show ?thesis
    using ids_qualified_by_file [of "''a.py''" analyzer_py env0 "''python''" "''/repo''" "[''./a.py'']" "''bin.py''"]
      a b r k
    by auto
qed

text \<open>
  C2 as stated fails: in \<open>a.py\<close> the method \<open>bar\<close> of \<open>Foo\<close> (line 2) and the top-level
  function \<open>bar\<close> (line 3) receive the same id, and of the three declarations two records
  remain, the one under \<open>a.py:bar\<close> being the top-level function.
\<close>

theorem nested_same_name_counterexample:
  "keys (fst (parse_python_ast tree_a ''a.py'' content_a)) = [''a.py:Foo'', ''a.py:bar''] \<and>
   map_option (\<lambda>el. (line_start el, parent el)) (map_of (fst (parse_python_ast tree_a ''a.py'' content_a)) ''a.py:bar'') =
     Some (3, None) \<and>
   snd (parse_python_ast tree_a ''a.py'' content_a) = [(''a.py:Foo'', ''a.py:bar'', ''contains'')]"
  by (simp add: analysis_defs tree_a_def content_a_def Let_def)

section \<open>Binary files\<close>

lemma binary_not_detected:
  assumes "read_bytes e fp = Inr data" and "CHR 0x00 \<in> set (take 1024 data)"
  shows "fp \<notin> set (LanguageDetector_get_code_files e repo)"
  using assms by (simp add: LanguageDetector_get_code_files_def is_binary_file_def)

text \<open>
  C3 (as amended). A file with a NUL byte among its first 1024 bytes is not among the code
  files of language detection. The analysis run selects files without reading them: it
  parses exactly the entry points that exist and the files found by the globs of the
  language's extensions that are not entry points.
\<close>

theorem binary_file_handling:
  assumes "read_bytes e fp = Inr data" and "CHR 0x00 \<in> set (take 1024 data)"
  shows "fp \<notin> set (LanguageDetector_get_code_files e repo_path) \<and>
    (fp \<in> set (analyzed_files e repo_path language eps) \<longleftrightarrow>
       (\<exists>ep \<in> set eps. fs_name repo_path (joinpath repo_path ep) = fp \<and> path_exists e fp = Inr True) \<or>
       fp \<notin> set eps \<and> (\<exists>ext \<in> set (case map_of extensions language of None \<Rightarrow> [] | Some exts \<Rightarrow> exts).
                          fp \<in> set (rglob e (''*'' @ ext)))) \<and>
    (\<forall>ccg. analyze_codebase self e repo_path language eps = Inr ccg \<longrightarrow>
       (elements ccg, relationships ccg) =
         fold (\<lambda>p acc. merge_file acc (analyze_file self e p language))
           (analyzed_files e repo_path language eps) ([], []))"
proof -
  have a: "fp \<notin> set (LanguageDetector_get_code_files e repo_path)"
    using binary_not_detected [OF assms] .
  have b: "fp \<in> set (analyzed_files e repo_path language eps) \<longleftrightarrow>
       (\<exists>ep \<in> set eps. fs_name repo_path (joinpath repo_path ep) = fp \<and> path_exists e fp = Inr True) \<or>
       fp \<notin> set eps \<and> (\<exists>ext \<in> set (case map_of extensions language of None \<Rightarrow> [] | Some exts \<Rightarrow> exts).
                          fp \<in> set (rglob e (''*'' @ ext)))"
    by (auto simp: analyzed_files_def CodeAnalyzer_get_code_files_def)
  show ?thesis using a b analyze_codebase_fold(1) by blast
qed

theorem binary_file_handling_witness:
  "read_bytes env0 ''bin.py'' = Inr content_bin \<and> CHR 0x00 \<in> set (take 1024 content_bin) \<and>
   ''bin.py'' \<notin> set (LanguageDetector_get_code_files env0 ''/repo'') \<and>
   ''bin.py'' \<in> set (analyzed_files env0 ''/repo'' ''python'' [''a.py'']) \<and>
   (\<exists>ccg. analyze_codebase analyzer_none env0 ''/repo'' ''python'' [''a.py''] = Inr ccg \<and>
      (elements ccg, relationships ccg) =
        fold (\<lambda>p acc. merge_file acc (analyze_file analyzer_none env0 p ''python''))
          (analyzed_files env0 ''/repo'' ''python'' [''a.py'']) ([], []))"
proof -
  have r: "read_bytes env0 ''bin.py'' = Inr content_bin" by (simp add: env0_def)
  have z: "CHR 0x00 \<in> set (take 1024 content_bin)" by (simp add: content_bin_def)
  have m: "''bin.py'' \<in> set (analyzed_files env0 ''/repo'' ''python'' [''a.py''])"
    by (simp add: analyzed_files_def CodeAnalyzer_get_code_files_def extensions_def env0_def)
  obtain ccg where c: "analyze_codebase analyzer_none env0 ''/repo'' ''python'' [''a.py''] = Inr ccg"
    by (simp add: analysis_defs analyzer_none_def env0_def content_a_def content_bin_def Let_def)
  show ?thesis
    using binary_file_handling [OF r z, of "''/repo''" "''python''" "[''a.py'']" analyzer_none] r z m c
    by auto
qed

text \<open>
  C3 as stated fails: \<open>bin.py\<close> is binary, and the analysis run parses it and records
  the function found on its first line.
\<close>

theorem binary_file_parsed_counterexample:
  "is_binary_file env0 ''bin.py'' \<and>
   ''bin.py'' \<in> set (analyzed_files env0 ''/repo'' ''python'' []) \<and>
   keys (fst (analyze_file analyzer_none env0 ''bin.py'' ''python'')) = [''bin.py:f''] \<and>
   map_option (\<lambda>ccg. ''bin.py:f'' \<in> set (keys (elements ccg)))
     (case analyze_codebase analyzer_none env0 ''/repo'' ''python'' [] of
        Inl err \<Rightarrow> None | Inr ccg \<Rightarrow> Some ccg) = Some True"
  by (simp add: analysis_defs is_binary_file_def analyzer_none_def env0_def content_a_def
      content_bin_def Let_def)

section \<open>Errors in one file\<close>

lemma analyze_file_unreadable:
  "read_bytes e fp = Inl err \<Longrightarrow> analyze_file self e fp language = ([], [])"
  by (simp add: analyze_file_def read_text_def)

text \<open>
  C8. An error while processing one file must not abort the processing of the others.
  The source guards the read and the grammar-based parse, and a file whose read raises
  contributes nothing (\<open>b.py\<close> below). But \<open>file_path.exists()\<close> and
  \<open>file_path.relative_to(Path(repo_root))\<close> stand outside every \<open>try\<close>: with the entry
  point \<open>/etc/hostname\<close>, which exists, can be read and is not under the root, the run
  ends with \<open>ValueError\<close>; with the entry point \<open>locked/main.py\<close>, whose existence cannot be
  asked, it ends with the error \<open>exists\<close> raises. In both runs no graph is returned and
  none of the other files is processed, whereas without the entry point the run returns
  the elements of \<open>a.py\<close> and \<open>bin.py\<close>.
\<close>

theorem entry_point_error_aborts_run:
  "analyze_codebase analyzer_none env0 ''/repo'' ''python'' [''/etc/hostname''] =
     Inl (ValueError ''path is not in the subpath of the other path'') \<and>
   analyze_codebase analyzer_none env0 ''/repo'' ''python'' [''locked/main.py''] = Inl OSError \<and>
   analyze_file analyzer_none env0 ''b.py'' ''python'' = ([], []) \<and>
   map_option (\<lambda>ccg. keys (elements ccg))
     (case analyze_codebase analyzer_none env0 ''/repo'' ''python'' [] of
        Inl err \<Rightarrow> None | Inr ccg \<Rightarrow> Some ccg) =
     Some [''a.py:bar'', ''a.py:Foo'', ''bin.py:f'']"
  by (simp add: analysis_defs analyzer_none_def env0_def content_a_def content_bin_def Let_def)

end
